theory Spec2Isabelle
  imports Main "HOL-Library.Multiset"
begin

section \<open>The round_robin load-balancing policy (round_robin.cc)\<close>

text \<open>
  A shallow embedding of \<^verbatim>\<open>src/core/ext/filters/client_channel/lb_policy/round_robin/round_robin.cc\<close>.
  Objects are records, C++ enums are datatypes, mutation is explicit state passing, and
  every \<^verbatim>\<open>GPR_ASSERT\<close> failure or undefined operation (null dereference, modulo by zero)
  is a value of the type \<open>error\<close>. Trace logging (\<^verbatim>\<open>GRPC_TRACE_FLAG_ENABLED\<close> blocks) has no
  effect on the state and is left out.
\<close>

subsection \<open>Data\<close>

datatype error = AssertionFailed | NullDereference | DivisionByZero | OutOfRange

text \<open>\<^verbatim>\<open>grpc_connectivity_state\<close> (connectivity_state.h), with the enumerators' names.\<close>

datatype grpc_connectivity_state =
    GRPC_CHANNEL_IDLE
  | GRPC_CHANNEL_CONNECTING
  | GRPC_CHANNEL_READY
  | GRPC_CHANNEL_TRANSIENT_FAILURE
  | GRPC_CHANNEL_SHUTDOWN

text \<open>
  \<^verbatim>\<open>absl::Status\<close>: \<^verbatim>\<open>absl::Status()\<close> is \<open>OkStatus\<close>, \<^verbatim>\<open>absl::UnavailableError(m)\<close> is
  \<open>UnavailableError m\<close>; any other status (a resolver's own) is \<open>OtherStatus code m\<close>.
\<close>

datatype Status = OkStatus | UnavailableError string | OtherStatus nat string

text \<open>A subchannel handle (\<^verbatim>\<open>RefCountedPtr<SubchannelInterface>\<close>) and an address are opaque.\<close>

type_synonym SubchannelInterface = nat
type_synonym ServerAddress = nat

text \<open>
  \<^verbatim>\<open>size_t\<close> values are naturals; \<^verbatim>\<open>++x\<close> wraps at \<open>SIZE_MAX\<close> (a 64-bit \<^verbatim>\<open>size_t\<close>).
\<close>

definition SIZE_MAX :: nat where
  "SIZE_MAX = 18446744073709551615"

definition size_t_incr :: "nat \<Rightarrow> nat" where
  "size_t_incr n = (if n = SIZE_MAX then 0 else n + 1)"

subsection \<open>RoundRobin::Picker\<close>

record Picker =
  last_picked_index :: nat
  subchannels :: "SubchannelInterface list"

datatype PickResult =
    Complete SubchannelInterface
  | Queue
  | Fail Status
  | Drop Status

text \<open>
  \<^verbatim>\<open>last_picked_index_ = (last_picked_index_ + 1) % subchannels_.size();\<close>
  \<^verbatim>\<open>return PickResult::Complete(subchannels_[last_picked_index_]);\<close>
  The remainder by an empty snapshot's size is undefined in C++: \<open>DivisionByZero\<close>.
\<close>

definition Pick :: "Picker \<Rightarrow> error + (PickResult \<times> Picker)" where
  "Pick p =
     (if length (subchannels p) = 0 then Inl DivisionByZero
      else
        let i = size_t_incr (last_picked_index p) mod length (subchannels p)
        in Inr (Complete (subchannels p ! i), p\<lparr>last_picked_index := i\<rparr>))"

text \<open>\<open>picks k p\<close>: \<open>k\<close> consecutive calls of \<open>Pick\<close> on one Picker, with their results in order.\<close>

fun picks :: "nat \<Rightarrow> Picker \<Rightarrow> error + (PickResult list \<times> Picker)" where
  "picks 0 p = Inr ([], p)"
| "picks (Suc k) p =
     (case Pick p of
        Inl e \<Rightarrow> Inl e
      | Inr (r, p') \<Rightarrow>
          (case picks k p' of
             Inl e \<Rightarrow> Inl e
           | Inr (rs, p'') \<Rightarrow> Inr (r # rs, p'')))"

subsection \<open>RoundRobinSubchannelData and RoundRobinSubchannelList\<close>

text \<open>
  An entry holds its subchannel handle (the base class's \<^verbatim>\<open>subchannel()\<close>, which the source
  compares with \<^verbatim>\<open>nullptr\<close>) and \<^verbatim>\<open>logical_connectivity_state_\<close>. A list holds its entries
  (the base class's \<^verbatim>\<open>subchannel(i)\<close>, \<^verbatim>\<open>num_subchannels()\<close>) and the three counters.
\<close>

record RoundRobinSubchannelData =
  subchannel :: "SubchannelInterface option"
  logical_connectivity_state :: grpc_connectivity_state

record RoundRobinSubchannelList =
  subchannel_data :: "RoundRobinSubchannelData list"
  num_ready :: nat
  num_connecting :: nat
  num_transient_failure :: nat

definition num_subchannels :: "RoundRobinSubchannelList \<Rightarrow> nat" where
  "num_subchannels l = length (subchannel_data l)"

text \<open>
  Modelled from the spec: the base-class constructor \<^verbatim>\<open>SubchannelList(policy, tracer, addresses,
  helper, args)\<close> of subchannel_list.h, which is not part of the sources. A list is built from
  one address update, one entry per address, with the handle the helper's \<open>CreateSubchannel\<close>
  gives (absent when none). The initial values are the source's member initialisers:
  \<^verbatim>\<open>logical_connectivity_state_ = GRPC_CHANNEL_IDLE\<close>, \<^verbatim>\<open>num_ready_ = 0\<close>,
  \<^verbatim>\<open>num_connecting_ = 0\<close>, \<^verbatim>\<open>num_transient_failure_ = 0\<close>.
\<close>

definition RoundRobinSubchannelList_ctor ::
  "(ServerAddress \<Rightarrow> SubchannelInterface option) \<Rightarrow> ServerAddress list \<Rightarrow> RoundRobinSubchannelList"
where
  "RoundRobinSubchannelList_ctor CreateSubchannel addresses =
     \<lparr>subchannel_data =
        map (\<lambda>a. \<lparr>subchannel = CreateSubchannel a,
                  logical_connectivity_state = GRPC_CHANNEL_IDLE\<rparr>) addresses,
      num_ready = 0, num_connecting = 0, num_transient_failure = 0\<rparr>"

text \<open>
  \<^verbatim>\<open>UpdateStateCountersLocked(old_state, new_state)\<close>: the two assertions on SHUTDOWN, the
  decrement of the old state's counter under its assertion, the increment of the new one.
\<close>

definition UpdateStateCountersLocked ::
  "grpc_connectivity_state \<Rightarrow> grpc_connectivity_state \<Rightarrow> RoundRobinSubchannelList
     \<Rightarrow> error + RoundRobinSubchannelList"
where
  "UpdateStateCountersLocked old_state new_state l =
     (if old_state = GRPC_CHANNEL_SHUTDOWN then Inl AssertionFailed
      else if new_state = GRPC_CHANNEL_SHUTDOWN then Inl AssertionFailed
      else
        (case
           (if old_state = GRPC_CHANNEL_READY then
              (if 0 < num_ready l then Inr (l\<lparr>num_ready := num_ready l - 1\<rparr>)
               else Inl AssertionFailed)
            else if old_state = GRPC_CHANNEL_CONNECTING then
              (if 0 < num_connecting l then Inr (l\<lparr>num_connecting := num_connecting l - 1\<rparr>)
               else Inl AssertionFailed)
            else if old_state = GRPC_CHANNEL_TRANSIENT_FAILURE then
              (if 0 < num_transient_failure l
               then Inr (l\<lparr>num_transient_failure := num_transient_failure l - 1\<rparr>)
               else Inl AssertionFailed)
            else Inr l)
         of
           Inl e \<Rightarrow> Inl e
         | Inr l1 \<Rightarrow>
             Inr (if new_state = GRPC_CHANNEL_READY then
                    l1\<lparr>num_ready := size_t_incr (num_ready l1)\<rparr>
                  else if new_state = GRPC_CHANNEL_CONNECTING then
                    l1\<lparr>num_connecting := size_t_incr (num_connecting l1)\<rparr>
                  else if new_state = GRPC_CHANNEL_TRANSIENT_FAILURE then
                    l1\<lparr>num_transient_failure := size_t_incr (num_transient_failure l1)\<rparr>
                  else l1)))"

text \<open>
  \<^verbatim>\<open>UpdateLogicalConnectivityStateLocked(connectivity_state)\<close>, a method of the entry at
  index \<open>i\<close> of its list; it returns whether the state changed, and the list. An index that
  names no entry of the list is \<open>OutOfRange\<close>.
\<close>

definition UpdateLogicalConnectivityStateLocked ::
  "nat \<Rightarrow> grpc_connectivity_state \<Rightarrow> RoundRobinSubchannelList
     \<Rightarrow> error + (bool \<times> RoundRobinSubchannelList)"
where
  "UpdateLogicalConnectivityStateLocked i connectivity_state l =
     (if num_subchannels l \<le> i then Inl OutOfRange
      else
        let sd = subchannel_data l ! i in
        if logical_connectivity_state sd = GRPC_CHANNEL_TRANSIENT_FAILURE \<and>
           connectivity_state \<noteq> GRPC_CHANNEL_READY
        then Inr (False, l)
        else
          let connectivity_state' =
                (if connectivity_state = GRPC_CHANNEL_IDLE then GRPC_CHANNEL_CONNECTING
                 else connectivity_state)
          in
          if logical_connectivity_state sd = connectivity_state' then Inr (False, l)
          else
            (case UpdateStateCountersLocked (logical_connectivity_state sd) connectivity_state' l of
               Inl e \<Rightarrow> Inl e
             | Inr l' \<Rightarrow>
                 Inr (True,
                      l'\<lparr>subchannel_data :=
                           (subchannel_data l')
                             [i := sd\<lparr>logical_connectivity_state := connectivity_state'\<rparr>]\<rparr>)))"

subsection \<open>The Picker's constructor\<close>

text \<open>
  The loop of \<^verbatim>\<open>Picker::Picker\<close> pushes \<^verbatim>\<open>sd->subchannel()->Ref()\<close> for every READY entry, in
  list order; \<^verbatim>\<open>Ref()\<close> through an absent handle is a null dereference.
\<close>

fun Picker_subchannels :: "RoundRobinSubchannelData list \<Rightarrow> error + SubchannelInterface list" where
  "Picker_subchannels [] = Inr []"
| "Picker_subchannels (sd # sds) =
     (if logical_connectivity_state sd = GRPC_CHANNEL_READY then
        (case subchannel sd of
           None \<Rightarrow> Inl NullDereference
         | Some sc \<Rightarrow>
             (case Picker_subchannels sds of
                Inl e \<Rightarrow> Inl e
              | Inr scs \<Rightarrow> Inr (sc # scs)))
      else Picker_subchannels sds)"

text \<open>
  \<^verbatim>\<open>last_picked_index_ = rand() % subchannels_.size();\<close> where \<open>rnd\<close> is the value
  \<^verbatim>\<open>rand()\<close> returns (between 0 and \<^verbatim>\<open>RAND_MAX\<close>).
\<close>

definition Picker_ctor :: "nat \<Rightarrow> RoundRobinSubchannelList \<Rightarrow> error + Picker" where
  "Picker_ctor rnd l =
     (case Picker_subchannels (subchannel_data l) of
        Inl e \<Rightarrow> Inl e
      | Inr scs \<Rightarrow>
          if length scs = 0 then Inl DivisionByZero
          else Inr \<lparr>last_picked_index = rnd mod length scs, subchannels = scs\<rparr>)"

subsection \<open>The policy\<close>

text \<open>
  The policy object with the lists it can reach. A list is an object on the heap, named by
  its address, since the source compares \<^verbatim>\<open>this\<close> with the policy's two owning pointers.
  \<open>calls\<close> records, in order, the calls made to the collaborators: the helper
  (\<^verbatim>\<open>UpdateState\<close>, \<^verbatim>\<open>RequestReresolution\<close>) and the subchannels and base class
  (\<^verbatim>\<open>RequestConnection\<close>, \<^verbatim>\<open>StartConnectivityWatchLocked\<close>, the list's \<^verbatim>\<open>ResetBackoffLocked\<close>).
\<close>

type_synonym list_ptr = nat

datatype SubchannelPicker =
    RoundRobinPicker Picker
  | QueuePicker
  | TransientFailurePicker Status

datatype call =
    UpdateState grpc_connectivity_state Status SubchannelPicker
  | RequestReresolution
  | RequestConnection SubchannelInterface
  | StartConnectivityWatchLocked SubchannelInterface
  | SubchannelList_ResetBackoffLocked list_ptr

record RoundRobin =
  subchannel_list :: "list_ptr option"
  latest_pending_subchannel_list :: "list_ptr option"
  shutdown :: bool
  heap :: "list_ptr \<Rightarrow> RoundRobinSubchannelList option"
  next_ptr :: list_ptr
  calls :: "call list"

text \<open>\<^verbatim>\<open>RoundRobin::RoundRobin\<close>: both pointers null, \<^verbatim>\<open>shutdown_ = false\<close>.\<close>

definition RoundRobin_ctor :: RoundRobin where
  "RoundRobin_ctor =
     \<lparr>subchannel_list = None, latest_pending_subchannel_list = None, shutdown = False,
      heap = (\<lambda>_. None), next_ptr = 0, calls = []\<rparr>"

text \<open>
  An \<^verbatim>\<open>OrphanablePtr\<close> that is reset or assigned over destroys the list it owned: the list
  leaves the heap. What the base class's \<^verbatim>\<open>Orphan()\<close> does to the list's subchannels
  (cancelling the watches, dropping the references) is not part of the sources and is not
  recorded in \<open>calls\<close>.
\<close>

definition Orphan ::
  "list_ptr option \<Rightarrow> (list_ptr \<Rightarrow> RoundRobinSubchannelList option)
     \<Rightarrow> (list_ptr \<Rightarrow> RoundRobinSubchannelList option)"
where
  "Orphan q h = (case q of None \<Rightarrow> h | Some a \<Rightarrow> h(a := None))"

text \<open>
  \<^verbatim>\<open>MaybeUpdateRoundRobinConnectivityStateLocked(status_for_tf)\<close>, a method of the list at
  address \<open>this\<close>, in three parts. \<open>swap_condition\<close> is the condition of its first
  \<^verbatim>\<open>if\<close>, evaluated left to right as \<^verbatim>\<open>&&\<close> and \<^verbatim>\<open>||\<close> do (the active list's counter is
  read only when \<^verbatim>\<open>subchannel_list_\<close> is not null). \<open>report_state\<close> is the chain
  ``first matching rule wins'' with the call to the helper's \<^verbatim>\<open>UpdateState\<close> it makes, if any.
  The move assignment leaves \<^verbatim>\<open>latest_pending_subchannel_list_\<close> null and destroys the list
  \<^verbatim>\<open>subchannel_list_\<close> owned before. A pointer that names no list of the heap is a null
  dereference.
\<close>

definition swap_condition :: "list_ptr \<Rightarrow> RoundRobinSubchannelList \<Rightarrow> RoundRobin \<Rightarrow> error + bool" where
  "swap_condition this l p =
     (if latest_pending_subchannel_list p = Some this then
        (case subchannel_list p of
           None \<Rightarrow> Inr True
         | Some a \<Rightarrow>
             (case heap p a of
                None \<Rightarrow> Inl NullDereference
              | Some al \<Rightarrow>
                  Inr (num_ready al = 0 \<or> 0 < num_ready l \<or>
                       num_transient_failure l = num_subchannels l)))
      else Inr False)"

definition report_state :: "nat \<Rightarrow> RoundRobinSubchannelList \<Rightarrow> Status \<Rightarrow> error + call list" where
  "report_state rnd l status_for_tf =
     (if 0 < num_ready l then
        (case Picker_ctor rnd l of
           Inl e \<Rightarrow> Inl e
         | Inr picker \<Rightarrow> Inr [UpdateState GRPC_CHANNEL_READY OkStatus (RoundRobinPicker picker)])
      else if 0 < num_connecting l then
        Inr [UpdateState GRPC_CHANNEL_CONNECTING OkStatus QueuePicker]
      else if num_transient_failure l = num_subchannels l then
        Inr [UpdateState GRPC_CHANNEL_TRANSIENT_FAILURE status_for_tf
               (TransientFailurePicker status_for_tf)]
      else Inr [])"

definition MaybeUpdateRoundRobinConnectivityStateLocked ::
  "nat \<Rightarrow> list_ptr \<Rightarrow> Status \<Rightarrow> RoundRobin \<Rightarrow> error + RoundRobin"
where
  "MaybeUpdateRoundRobinConnectivityStateLocked rnd this status_for_tf p =
     (case heap p this of
        None \<Rightarrow> Inl NullDereference
      | Some l \<Rightarrow>
          (case swap_condition this l p of
             Inl e \<Rightarrow> Inl e
           | Inr swap \<Rightarrow>
               let p1 =
                 (if swap then
                    p\<lparr>subchannel_list := latest_pending_subchannel_list p,
                      latest_pending_subchannel_list := None,
                      heap := Orphan (subchannel_list p) (heap p)\<rparr>
                  else p)
               in
               if subchannel_list p1 \<noteq> Some this then Inr p1
               else
                 (case report_state rnd l status_for_tf of
                    Inl e \<Rightarrow> Inl e
                  | Inr cs \<Rightarrow> Inr (p1\<lparr>calls := calls p1 @ cs\<rparr>))))"

text \<open>
  \<^verbatim>\<open>StartWatchingLocked(status_for_tf)\<close>. The first loop polls each entry;
  \<open>CheckConnectivityStateLocked i\<close> is the raw state the base-class method (not part of the
  sources) returns for entry \<open>i\<close>. The second loop starts the watch and requests a connection
  for every entry whose handle is present.
\<close>

fun StartWatching_check_loop ::
  "(nat \<Rightarrow> grpc_connectivity_state) \<Rightarrow> nat list \<Rightarrow> RoundRobinSubchannelList
     \<Rightarrow> error + RoundRobinSubchannelList"
where
  "StartWatching_check_loop CheckConnectivityStateLocked [] l = Inr l"
| "StartWatching_check_loop CheckConnectivityStateLocked (i # is) l =
     (let state = CheckConnectivityStateLocked i in
      if state \<noteq> GRPC_CHANNEL_IDLE then
        (case UpdateLogicalConnectivityStateLocked i state l of
           Inl e \<Rightarrow> Inl e
         | Inr (changed, l') \<Rightarrow> StartWatching_check_loop CheckConnectivityStateLocked is l')
      else StartWatching_check_loop CheckConnectivityStateLocked is l)"

fun StartWatching_watch_loop :: "RoundRobinSubchannelData list \<Rightarrow> call list" where
  "StartWatching_watch_loop [] = []"
| "StartWatching_watch_loop (sd # sds) =
     (case subchannel sd of
        None \<Rightarrow> StartWatching_watch_loop sds
      | Some sc \<Rightarrow>
          StartConnectivityWatchLocked sc # RequestConnection sc # StartWatching_watch_loop sds)"

definition StartWatchingLocked ::
  "(nat \<Rightarrow> grpc_connectivity_state) \<Rightarrow> nat \<Rightarrow> list_ptr \<Rightarrow> Status \<Rightarrow> RoundRobin
     \<Rightarrow> error + RoundRobin"
where
  "StartWatchingLocked CheckConnectivityStateLocked rnd this status_for_tf p =
     (case heap p this of
        None \<Rightarrow> Inl NullDereference
      | Some l \<Rightarrow>
          (case StartWatching_check_loop CheckConnectivityStateLocked [0..<num_subchannels l] l of
             Inl e \<Rightarrow> Inl e
           | Inr l' \<Rightarrow>
               MaybeUpdateRoundRobinConnectivityStateLocked rnd this status_for_tf
                 (p\<lparr>heap := (heap p)(this \<mapsto> l'),
                    calls := calls p @ StartWatching_watch_loop (subchannel_data l')\<rparr>)))"

text \<open>
  \<^verbatim>\<open>ProcessConnectivityChangeLocked(connectivity_state)\<close>, a method of the entry at index
  \<open>i\<close> of the list at \<open>this\<close>; the base class's watcher calls it for each notification.
\<close>

definition ProcessConnectivityChangeLocked ::
  "nat \<Rightarrow> list_ptr \<Rightarrow> nat \<Rightarrow> grpc_connectivity_state \<Rightarrow> RoundRobin \<Rightarrow> error + RoundRobin"
where
  "ProcessConnectivityChangeLocked rnd this i connectivity_state p =
     (case heap p this of
        None \<Rightarrow> Inl NullDereference
      | Some l \<Rightarrow>
          if num_subchannels l \<le> i then Inl OutOfRange
          else
            (case subchannel (subchannel_data l ! i) of
               None \<Rightarrow> Inl AssertionFailed
             | Some sc \<Rightarrow>
                 let p1 =
                   (if connectivity_state = GRPC_CHANNEL_TRANSIENT_FAILURE \<or>
                       connectivity_state = GRPC_CHANNEL_IDLE
                    then p\<lparr>calls := calls p @ [RequestReresolution, RequestConnection sc]\<rparr>
                    else p)
                 in
                 (case UpdateLogicalConnectivityStateLocked i connectivity_state l of
                    Inl e \<Rightarrow> Inl e
                  | Inr (changed, l') \<Rightarrow>
                      let p2 = p1\<lparr>heap := (heap p1)(this \<mapsto> l')\<rparr> in
                      if changed then
                        MaybeUpdateRoundRobinConnectivityStateLocked rnd this
                          (UnavailableError ''connections to all backends failing'') p2
                      else Inr p2)))"

text \<open>
  \<^verbatim>\<open>UpdateArgs\<close>: \<^verbatim>\<open>args.addresses\<close> is an \<^verbatim>\<open>absl::StatusOr<ServerAddressList>\<close>. The channel
  arguments are only handed to the base-class constructor and are left out.
\<close>

datatype 'a StatusOr = StatusOr_value 'a | StatusOr_status Status

record UpdateArgs =
  addresses :: "ServerAddress list StatusOr"
  resolution_note :: string

text \<open>
  \<^verbatim>\<open>UpdateLocked(args)\<close>. The new list gets the fresh address \<open>next_ptr p\<close>; assigning it to
  \<^verbatim>\<open>latest_pending_subchannel_list_\<close> destroys the pending list owned before.
\<close>

definition UpdateLocked ::
  "(ServerAddress \<Rightarrow> SubchannelInterface option) \<Rightarrow> (nat \<Rightarrow> grpc_connectivity_state) \<Rightarrow> nat
     \<Rightarrow> UpdateArgs \<Rightarrow> RoundRobin \<Rightarrow> error + RoundRobin"
where
  "UpdateLocked CreateSubchannel CheckConnectivityStateLocked rnd args p =
     (case
        (case addresses args of
           StatusOr_value a \<Rightarrow> Some a
         | StatusOr_status st \<Rightarrow> if subchannel_list p \<noteq> None then None else Some [])
      of
        None \<Rightarrow> Inr p
      | Some addrs \<Rightarrow>
          let new = next_ptr p;
              p1 = p\<lparr>heap :=
                       Orphan (latest_pending_subchannel_list p)
                         ((heap p)(new \<mapsto> RoundRobinSubchannelList_ctor CreateSubchannel addrs)),
                     latest_pending_subchannel_list := Some new,
                     next_ptr := new + 1\<rparr>
          in
          StartWatchingLocked CheckConnectivityStateLocked rnd new
            (case addresses args of
               StatusOr_value a \<Rightarrow> UnavailableError (''empty address list: '' @ resolution_note args)
             | StatusOr_status st \<Rightarrow> st)
            p1)"

text \<open>\<^verbatim>\<open>ShutdownLocked()\<close>: sets the flag and resets both pointers.\<close>

definition ShutdownLocked :: "RoundRobin \<Rightarrow> RoundRobin" where
  "ShutdownLocked p =
     p\<lparr>shutdown := True,
       heap := Orphan (latest_pending_subchannel_list p) (Orphan (subchannel_list p) (heap p)),
       subchannel_list := None,
       latest_pending_subchannel_list := None\<rparr>"

text \<open>
  \<^verbatim>\<open>ResetBackoffLocked()\<close>: \<^verbatim>\<open>subchannel_list_->ResetBackoffLocked()\<close> with no null check,
  then the pending list's if there is one.
\<close>

definition ResetBackoffLocked :: "RoundRobin \<Rightarrow> error + RoundRobin" where
  "ResetBackoffLocked p =
     (case subchannel_list p of
        None \<Rightarrow> Inl NullDereference
      | Some a \<Rightarrow>
          let p1 = p\<lparr>calls := calls p @ [SubchannelList_ResetBackoffLocked a]\<rparr> in
          (case latest_pending_subchannel_list p1 of
             None \<Rightarrow> Inr p1
           | Some b \<Rightarrow> Inr (p1\<lparr>calls := calls p1 @ [SubchannelList_ResetBackoffLocked b]\<rparr>)))"

subsection \<open>Invariants\<close>

text \<open>
  \<open>count_state s l\<close> is the number of entries of \<open>l\<close> whose logical state is \<open>s\<close>. A list is
  consistent when each counter is the number of entries in its state, no entry is in
  SHUTDOWN, and the number of entries fits a \<^verbatim>\<open>size_t\<close>.
\<close>

definition count_state :: "grpc_connectivity_state \<Rightarrow> RoundRobinSubchannelList \<Rightarrow> nat" where
  "count_state s l =
     length (filter (\<lambda>sd. logical_connectivity_state sd = s) (subchannel_data l))"

definition counters_consistent :: "RoundRobinSubchannelList \<Rightarrow> bool" where
  "counters_consistent l \<longleftrightarrow>
     num_ready l = count_state GRPC_CHANNEL_READY l \<and>
     num_connecting l = count_state GRPC_CHANNEL_CONNECTING l \<and>
     num_transient_failure l = count_state GRPC_CHANNEL_TRANSIENT_FAILURE l \<and>
     count_state GRPC_CHANNEL_SHUTDOWN l = 0 \<and>
     num_subchannels l \<le> SIZE_MAX"

text \<open>
  The policy's heap is consistent when every list on it is. The policy is well formed when
  its two owning pointers name distinct live lists allocated before \<open>next_ptr\<close>
  (an \<^verbatim>\<open>OrphanablePtr\<close> is the only owner of its list).
\<close>

definition heap_consistent :: "RoundRobin \<Rightarrow> bool" where
  "heap_consistent p \<longleftrightarrow> (\<forall>q l. heap p q = Some l \<longrightarrow> counters_consistent l)"

definition well_formed :: "RoundRobin \<Rightarrow> bool" where
  "well_formed p \<longleftrightarrow>
     (case subchannel_list p of
        None \<Rightarrow> True
      | Some a \<Rightarrow> a < next_ptr p \<and> heap p a \<noteq> None) \<and>
     (case latest_pending_subchannel_list p of
        None \<Rightarrow> True
      | Some b \<Rightarrow> b < next_ptr p \<and> heap p b \<noteq> None \<and> subchannel_list p \<noteq> Some b)"

subsection \<open>Example values\<close>

text \<open>
  A policy that serves from a list with one READY subchannel while a pending list has two
  READY subchannels and one CONNECTING; the theorems below are instantiated on it.
\<close>

definition example_active :: RoundRobinSubchannelList where
  "example_active =
     \<lparr>subchannel_data =
        [\<lparr>subchannel = Some 7, logical_connectivity_state = GRPC_CHANNEL_READY\<rparr>],
      num_ready = 1, num_connecting = 0, num_transient_failure = 0\<rparr>"

definition example_pending :: RoundRobinSubchannelList where
  "example_pending =
     \<lparr>subchannel_data =
        [\<lparr>subchannel = Some 8, logical_connectivity_state = GRPC_CHANNEL_READY\<rparr>,
         \<lparr>subchannel = Some 9, logical_connectivity_state = GRPC_CHANNEL_CONNECTING\<rparr>,
         \<lparr>subchannel = Some 10, logical_connectivity_state = GRPC_CHANNEL_READY\<rparr>],
      num_ready = 2, num_connecting = 1, num_transient_failure = 0\<rparr>"

definition example_policy :: RoundRobin where
  "example_policy =
     \<lparr>subchannel_list = Some 3, latest_pending_subchannel_list = Some 4, shutdown = False,
      heap = [3 \<mapsto> example_active, 4 \<mapsto> example_pending], next_ptr = 5, calls = []\<rparr>"

text \<open>
  Collaborators for the examples: every address gets a subchannel whose handle is the
  address itself, and every polled subchannel reports IDLE.
\<close>

definition example_CreateSubchannel :: "ServerAddress \<Rightarrow> SubchannelInterface option" where
  "example_CreateSubchannel a = Some a"

definition example_all_idle :: "nat \<Rightarrow> grpc_connectivity_state" where
  "example_all_idle i = GRPC_CHANNEL_IDLE"

section \<open>Properties of the Picker\<close>

lemma size_t_incr_lt: "c < n \<Longrightarrow> n \<le> SIZE_MAX \<Longrightarrow> size_t_incr c = c + 1"
  by (simp add: size_t_incr_def)

lemma Pick_nonempty:
  "subchannels p \<noteq> [] \<Longrightarrow>
   Pick p = Inr (Complete (subchannels p ! (size_t_incr (last_picked_index p) mod length (subchannels p))),
                 p\<lparr>last_picked_index := size_t_incr (last_picked_index p) mod length (subchannels p)\<rparr>)"
  by (simp add: Pick_def Let_def)

lemma picks_formula:
  "subchannels p \<noteq> [] \<Longrightarrow> length (subchannels p) \<le> SIZE_MAX \<Longrightarrow>
   last_picked_index p < length (subchannels p) \<Longrightarrow>
   picks k p =
     Inr (map (\<lambda>j. Complete (subchannels p ! ((last_picked_index p + 1 + j) mod length (subchannels p)))) [0..<k],
          p\<lparr>last_picked_index := (last_picked_index p + k) mod length (subchannels p)\<rparr>)"
proof (induction k arbitrary: p)
  case 0
  then show ?case by simp
next
  case (Suc k)
  let ?n = "length (subchannels p)"
  let ?c = "last_picked_index p"
  let ?p' = "p\<lparr>last_picked_index := (?c + 1) mod ?n\<rparr>"
  have inc: "size_t_incr ?c = ?c + 1"
    using Suc.prems by (simp add: size_t_incr_lt)
  have P: "Pick p = Inr (Complete (subchannels p ! ((?c + 1) mod ?n)), ?p')"
    using Pick_nonempty [OF Suc.prems(1)] inc by simp
  have lt: "(?c + 1) mod ?n < ?n"
    using Suc.prems(1) by simp
  have IH: "picks k ?p' =
     Inr (map (\<lambda>j. Complete (subchannels p ! (((?c + 1) mod ?n + 1 + j) mod ?n))) [0..<k],
          p\<lparr>last_picked_index := ((?c + 1) mod ?n + k) mod ?n\<rparr>)"
    using Suc.IH [of ?p'] Suc.prems lt by simp
  have idx: "\<And>j. ((?c + 1) mod ?n + 1 + j) mod ?n = (?c + 1 + Suc j) mod ?n"
    by (metis add.assoc mod_add_left_eq plus_1_eq_Suc)
  have cur: "((?c + 1) mod ?n + k) mod ?n = (?c + Suc k) mod ?n"
    by (simp add: mod_add_left_eq)
  have m: "map (\<lambda>j. Complete (subchannels p ! ((?c + 1 + j) mod ?n))) [0..<Suc k] =
           Complete (subchannels p ! ((?c + 1) mod ?n)) #
           map (\<lambda>j. Complete (subchannels p ! ((?c + 1 + Suc j) mod ?n))) [0..<k]"
    by (simp add: upt_rec [of 0] map_Suc_upt [symmetric] del: upt_Suc)
  have "picks (Suc k) p =
     Inr (Complete (subchannels p ! ((?c + 1) mod ?n)) #
          map (\<lambda>j. Complete (subchannels p ! (((?c + 1) mod ?n + 1 + j) mod ?n))) [0..<k],
          p\<lparr>last_picked_index := ((?c + 1) mod ?n + k) mod ?n\<rparr>)"
    by (simp only: picks.simps P IH sum.case prod.case)
  then show ?case
    by (simp only: idx cur m)
qed

lemma map_nth_rotate:
  "xs \<noteq> [] \<Longrightarrow> map (\<lambda>j. xs ! ((m + j) mod length xs)) [0..<length xs] = rotate m xs"
  by (rule nth_equalityI) (simp_all add: nth_rotate)


lemma picks_complete:
  "subchannels p \<noteq> [] \<Longrightarrow>
   \<exists>rs p'. picks k p = Inr (rs, p') \<and> length rs = k \<and> subchannels p' = subchannels p \<and>
           set rs \<subseteq> Complete ` set (subchannels p)"
proof (induction k arbitrary: p)
  case 0
  then show ?case by simp
next
  case (Suc k)
  let ?i = "size_t_incr (last_picked_index p) mod length (subchannels p)"
  let ?p' = "p\<lparr>last_picked_index := ?i\<rparr>"
  have P: "Pick p = Inr (Complete (subchannels p ! ?i), ?p')"
    using Suc.prems by (rule Pick_nonempty)
  have "?i < length (subchannels p)"
    using Suc.prems by simp
  then have mem: "subchannels p ! ?i \<in> set (subchannels p)"
    by (rule nth_mem)
  from Suc.IH [of ?p'] Suc.prems
  obtain rs p'' where R: "picks k ?p' = Inr (rs, p'')" "length rs = k"
      "subchannels p'' = subchannels p" "set rs \<subseteq> Complete ` set (subchannels p)"
    by auto
  have "picks (Suc k) p = Inr (Complete (subchannels p ! ?i) # rs, p'')"
    by (simp only: picks.simps P R(1) sum.case prod.case)
  with R mem show ?case by auto
qed

lemma mset_rotate_eq: "mset (rotate m xs) = mset xs"
proof -
  have "mset (drop (m mod length xs) xs @ take (m mod length xs) xs) =
        mset (take (m mod length xs) xs @ drop (m mod length xs) xs)"
    by (simp only: mset_append add.commute)
  then show ?thesis
    by (simp only: rotate_drop_take append_take_drop_id)
qed

lemma Picker_subchannels_Inr:
  "Picker_subchannels xs = Inr scs \<Longrightarrow>
   map Some scs =
     map subchannel (filter (\<lambda>sd. logical_connectivity_state sd = GRPC_CHANNEL_READY) xs)"
  by (induction xs arbitrary: scs) (auto split: if_splits option.splits sum.splits)

lemma Picker_subchannels_total:
  "\<forall>sd\<in>set xs. logical_connectivity_state sd = GRPC_CHANNEL_READY \<longrightarrow> subchannel sd \<noteq> None \<Longrightarrow>
   \<exists>scs. Picker_subchannels xs = Inr scs"
  by (induction xs) (auto split: option.splits)

lemma Picker_ctor_Inr:
  assumes "Picker_ctor rnd l = Inr picker"
  shows "map Some (subchannels picker) =
           map subchannel
             (filter (\<lambda>sd. logical_connectivity_state sd = GRPC_CHANNEL_READY) (subchannel_data l)) \<and>
         subchannels picker \<noteq> [] \<and>
         last_picked_index picker = rnd mod length (subchannels picker) \<and>
         last_picked_index picker < length (subchannels picker)"
proof -
  from assms obtain scs where s: "Picker_subchannels (subchannel_data l) = Inr scs"
    and n: "scs \<noteq> []"
    and p: "picker = \<lparr>last_picked_index = rnd mod length scs, subchannels = scs\<rparr>"
    by (auto simp add: Picker_ctor_def split: sum.splits if_splits)
  from Picker_subchannels_Inr [OF s] n p show ?thesis by simp
qed

lemma Pick_keeps_cursor_in_range:
  "subchannels p \<noteq> [] \<Longrightarrow> Pick p = Inr (r, p') \<Longrightarrow>
   subchannels p' = subchannels p \<and> last_picked_index p' < length (subchannels p')"
  by (auto simp add: Pick_def Let_def)

lemma report_state_pickers:
  assumes "report_state rnd l st = Inr cs" and "c \<in> set cs"
  shows "(\<exists>picker. Picker_ctor rnd l = Inr picker \<and>
            c = UpdateState GRPC_CHANNEL_READY OkStatus (RoundRobinPicker picker)) \<or>
         c = UpdateState GRPC_CHANNEL_CONNECTING OkStatus QueuePicker \<or>
         c = UpdateState GRPC_CHANNEL_TRANSIENT_FAILURE st (TransientFailurePicker st)"
  using assms by (auto simp add: report_state_def split: if_splits sum.splits)

text \<open>
  Claim C3. Let a Picker's snapshot hold \<open>n \<ge> 1\<close> subchannels and its cursor be \<open>c\<close>.
  Unless \<open>c\<close> is \<open>SIZE_MAX\<close> (no Picker has that cursor: the constructor leaves \<open>c < n\<close>,
  see \<open>Picker_ctor_Inr\<close>, and every Pick keeps it, see \<open>Pick_keeps_cursor_in_range\<close>),
  Pick sets the cursor to \<open>(c + 1) mod n\<close> and returns the subchannel at that position.
  When \<open>c < n\<close> and \<open>n\<close> is a \<^verbatim>\<open>size_t\<close> value, \<open>n\<close> consecutive picks return the snapshot
  rotated to start one past the initial offset, which is a permutation of the snapshot
  (each position exactly once), and leave the Picker as it was, so that the sequence
  repeats with period \<open>n\<close>; the pick number \<open>j\<close> (from 0) returns position
  \<open>(c + 1 + j) mod n\<close>.
\<close>

theorem Pick_round_robin:
  assumes "subchannels p \<noteq> []"
  shows "(last_picked_index p \<noteq> SIZE_MAX \<longrightarrow>
          Pick p =
           Inr (Complete (subchannels p ! ((last_picked_index p + 1) mod length (subchannels p))),
                p\<lparr>last_picked_index := (last_picked_index p + 1) mod length (subchannels p)\<rparr>)) \<and>
         (last_picked_index p < length (subchannels p) \<and> length (subchannels p) \<le> SIZE_MAX \<longrightarrow>
          picks (length (subchannels p)) p =
           Inr (map Complete
                  (rotate ((last_picked_index p + 1) mod length (subchannels p)) (subchannels p)), p) \<and>
          (\<forall>k. picks k p =
            Inr (map (\<lambda>j. Complete
                      (subchannels p ! ((last_picked_index p + 1 + j) mod length (subchannels p))))
                   [0..<k],
                 p\<lparr>last_picked_index := (last_picked_index p + k) mod length (subchannels p)\<rparr>))) \<and>
         mset (rotate ((last_picked_index p + 1) mod length (subchannels p)) (subchannels p)) =
           mset (subchannels p)"
proof -
  let ?n = "length (subchannels p)"
  let ?c = "last_picked_index p"
  have one: "Pick p = Inr (Complete (subchannels p ! ((?c + 1) mod ?n)),
                           p\<lparr>last_picked_index := (?c + 1) mod ?n\<rparr>)"
    if "?c \<noteq> SIZE_MAX"
  proof -
    from that have "size_t_incr ?c = ?c + 1"
      by (simp add: size_t_incr_def)
    with Pick_nonempty [OF assms] show ?thesis by simp
  qed
  have seq: "picks ?n p = Inr (map Complete (rotate ((?c + 1) mod ?n) (subchannels p)), p) \<and>
          (\<forall>k. picks k p =
            Inr (map (\<lambda>j. Complete (subchannels p ! ((?c + 1 + j) mod ?n))) [0..<k],
                 p\<lparr>last_picked_index := (?c + k) mod ?n\<rparr>))"
    if lt: "?c < ?n" and fits: "?n \<le> SIZE_MAX"
  proof -
    have all: "picks k p =
           Inr (map (\<lambda>j. Complete (subchannels p ! ((?c + 1 + j) mod ?n))) [0..<k],
                p\<lparr>last_picked_index := (?c + k) mod ?n\<rparr>)" for k
      using assms fits lt by (rule picks_formula)
    have again: "p\<lparr>last_picked_index := (?c + ?n) mod ?n\<rparr> = p"
      using lt by simp
    have "map (\<lambda>j. Complete (subchannels p ! ((?c + 1 + j) mod ?n))) [0..<?n] =
        map Complete (map (\<lambda>j. subchannels p ! (((?c + 1) mod ?n + j) mod ?n)) [0..<?n])"
      by (simp add: mod_add_left_eq)
    also have "... = map Complete (rotate ((?c + 1) mod ?n) (subchannels p))"
      using assms by (simp add: map_nth_rotate)
    finally have m: "map (\<lambda>j. Complete (subchannels p ! ((?c + 1 + j) mod ?n))) [0..<?n] =
        map Complete (rotate ((?c + 1) mod ?n) (subchannels p))" .
    have cyc: "picks ?n p = Inr (map Complete (rotate ((?c + 1) mod ?n) (subchannels p)), p)"
      using all [of ?n] by (simp only: m again)
    from cyc all show ?thesis
      by (intro conjI allI)
  qed
  have perm: "mset (rotate ((?c + 1) mod ?n) (subchannels p)) = mset (subchannels p)"
    by (rule mset_rotate_eq)
  from one seq perm show ?thesis
    by blast
qed

theorem Pick_round_robin_witness:
  "Pick \<lparr>last_picked_index = 1, subchannels = [10, 20, 30]\<rparr> =
     Inr (Complete 30, \<lparr>last_picked_index = 2, subchannels = [10, 20, 30]\<rparr>) \<and>
   picks 3 \<lparr>last_picked_index = 1, subchannels = [10, 20, 30]\<rparr> =
     Inr ([Complete 30, Complete 10, Complete 20],
          \<lparr>last_picked_index = 1, subchannels = [10, 20, 30]\<rparr>)"
proof -
  let ?P = "\<lparr>last_picked_index = 1, subchannels = [10, 20, 30]\<rparr>"
  have a: "subchannels ?P \<noteq> []" by simp
  have b: "last_picked_index ?P < length (subchannels ?P) \<and> length (subchannels ?P) \<le> SIZE_MAX"
    by (simp add: SIZE_MAX_def)
  have c: "last_picked_index ?P \<noteq> SIZE_MAX" by (simp add: SIZE_MAX_def)
  have r: "rotate 2 [10, 20, 30 :: nat] = [30, 10, 20]"
    by (simp add: numeral_2_eq_2)
  note th = Pick_round_robin [OF a]
  from th [THEN conjunct1, rule_format, OF c]
  have one: "Pick ?P = Inr (Complete 30, ?P\<lparr>last_picked_index := 2\<rparr>)"
    by simp
  have len: "length (subchannels ?P) = 3" by simp
  have m: "(last_picked_index ?P + 1) mod 3 = 2" by simp
  have "picks 3 ?P = Inr (map Complete (rotate 2 (subchannels ?P)), ?P)"
    using th [THEN conjunct2, THEN conjunct1, rule_format, OF b, THEN conjunct1]
    by (simp only: len m)
  then have cyc: "picks 3 ?P = Inr ([Complete 30, Complete 10, Complete 20], ?P)"
    by (simp only: Picker.select_convs r list.map)
  from one cyc show ?thesis by simp
qed

text \<open>
  Claim C10. For a Picker with a non-empty snapshot, whatever its cursor, Pick returns a
  complete result that carries a subchannel of the snapshot and leaves the snapshot as it
  is; so does every later Pick: any number of consecutive picks all return complete
  results over the snapshot, never a queue or fail result. The round-robin Picker is
  handed to the helper only with READY, and then its snapshot is not empty; with
  CONNECTING the helper gets the queue picker and with TRANSIENT_FAILURE the fail-fast
  picker.
\<close>

theorem Pick_always_complete:
  assumes "subchannels p \<noteq> []"
  shows "(\<exists>sc p'. Pick p = Inr (Complete sc, p') \<and> sc \<in> set (subchannels p) \<and>
                  subchannels p' = subchannels p) \<and>
         (\<forall>k. \<exists>rs p'. picks k p = Inr (rs, p') \<and> length rs = k \<and>
                  subchannels p' = subchannels p \<and> set rs \<subseteq> Complete ` set (subchannels p)) \<and>
         (\<forall>rnd l st cs c. report_state rnd l st = Inr cs \<and> c \<in> set cs \<longrightarrow>
            (\<exists>picker. Picker_ctor rnd l = Inr picker \<and> subchannels picker \<noteq> [] \<and>
               c = UpdateState GRPC_CHANNEL_READY OkStatus (RoundRobinPicker picker)) \<or>
            c = UpdateState GRPC_CHANNEL_CONNECTING OkStatus QueuePicker \<or>
            c = UpdateState GRPC_CHANNEL_TRANSIENT_FAILURE st (TransientFailurePicker st))"
proof -
  let ?i = "size_t_incr (last_picked_index p) mod length (subchannels p)"
  have "?i < length (subchannels p)"
    using assms by simp
  then have "subchannels p ! ?i \<in> set (subchannels p)"
    by (rule nth_mem)
  then have "\<exists>sc p'. Pick p = Inr (Complete sc, p') \<and> sc \<in> set (subchannels p) \<and>
                  subchannels p' = subchannels p"
    using Pick_nonempty [OF assms] by simp
  moreover have "(\<exists>picker. Picker_ctor rnd l = Inr picker \<and> subchannels picker \<noteq> [] \<and>
               c = UpdateState GRPC_CHANNEL_READY OkStatus (RoundRobinPicker picker)) \<or>
            c = UpdateState GRPC_CHANNEL_CONNECTING OkStatus QueuePicker \<or>
            c = UpdateState GRPC_CHANNEL_TRANSIENT_FAILURE st (TransientFailurePicker st)"
    if "report_state rnd l st = Inr cs \<and> c \<in> set cs" for rnd l st cs c
    using report_state_pickers [of rnd l st cs c] that Picker_ctor_Inr [of rnd l] by blast
  ultimately show ?thesis
    using picks_complete [OF assms] by blast
qed

theorem Pick_always_complete_witness:
  "\<exists>sc p'. Pick \<lparr>last_picked_index = SIZE_MAX, subchannels = [10, 20, 30]\<rparr> = Inr (Complete sc, p') \<and>
       sc \<in> {10, 20, 30}"
  using Pick_always_complete [of "\<lparr>last_picked_index = SIZE_MAX, subchannels = [10, 20, 30]\<rparr>"]
  by auto

section \<open>Properties of the entries and counters\<close>

lemma length_filter_update:
  "i < length xs \<Longrightarrow>
   length (filter P (xs[i := y])) + (if P (xs ! i) then 1 else 0) =
   length (filter P xs) + (if P y then 1 else 0)"
proof (induction xs arbitrary: i)
  case Nil
  then show ?case by simp
next
  case (Cons x xs)
  show ?case
  proof (cases i)
    case 0
    then show ?thesis by simp
  next
    case (Suc j)
    with Cons.prems have "j < length xs" by simp
    from Cons.IH [OF this] Suc show ?thesis by simp
  qed
qed

lemma count_state_update:
  assumes "i < num_subchannels l"
    and "logical_connectivity_state (subchannel_data l ! i) = old"
    and "old \<noteq> new"
  shows "count_state s (l'\<lparr>subchannel_data :=
            (subchannel_data l)[i := (subchannel_data l ! i)\<lparr>logical_connectivity_state := new\<rparr>]\<rparr>) +
         (if s = old then 1 else 0) =
         count_state s l + (if s = new then 1 else 0)"
  using assms
    length_filter_update [of i "subchannel_data l"
      "\<lambda>sd. logical_connectivity_state sd = s"
      "(subchannel_data l ! i)\<lparr>logical_connectivity_state := new\<rparr>"]
  by (auto simp add: count_state_def num_subchannels_def)

lemma count_state_le: "count_state s l \<le> num_subchannels l"
  by (simp add: count_state_def num_subchannels_def)

lemma count_state_pos:
  "i < num_subchannels l \<Longrightarrow> logical_connectivity_state (subchannel_data l ! i) = s \<Longrightarrow>
   0 < count_state s l"
  by (auto simp add: count_state_def num_subchannels_def filter_empty_conv intro!: bexI [of _ "subchannel_data l ! i"])


lemma size_t_incr_no_wrap: "n < SIZE_MAX \<Longrightarrow> size_t_incr n = n + 1"
  by (simp add: size_t_incr_def)

lemma consistent_no_SHUTDOWN:
  "counters_consistent l \<Longrightarrow> i < num_subchannels l \<Longrightarrow>
   logical_connectivity_state (subchannel_data l ! i) \<noteq> GRPC_CHANNEL_SHUTDOWN"
  using count_state_pos [of i l GRPC_CHANNEL_SHUTDOWN]
  by (auto simp add: counters_consistent_def)

lemma consistent_room:
  assumes "counters_consistent l" and "i < num_subchannels l"
    and "logical_connectivity_state (subchannel_data l ! i) \<noteq> s"
  shows "count_state s l < SIZE_MAX"
proof -
  let ?old = "logical_connectivity_state (subchannel_data l ! i)"
  have "count_state s (l\<lparr>subchannel_data :=
            (subchannel_data l)[i := (subchannel_data l ! i)\<lparr>logical_connectivity_state := s\<rparr>]\<rparr>) =
        count_state s l + 1"
    using count_state_update [of i l ?old s s l] assms by auto
  moreover have "count_state s (l\<lparr>subchannel_data :=
            (subchannel_data l)[i := (subchannel_data l ! i)\<lparr>logical_connectivity_state := s\<rparr>]\<rparr>)
          \<le> num_subchannels l"
    using count_state_le [of s "l\<lparr>subchannel_data :=
            (subchannel_data l)[i := (subchannel_data l ! i)\<lparr>logical_connectivity_state := s\<rparr>]\<rparr>"]
    by (simp add: num_subchannels_def)
  ultimately show ?thesis
    using assms(1) by (simp add: counters_consistent_def)
qed

lemma UpdateStateCountersLocked_ok:
  assumes "counters_consistent l" and "i < num_subchannels l"
    and "logical_connectivity_state (subchannel_data l ! i) = old"
    and "old \<noteq> new" and "new \<noteq> GRPC_CHANNEL_SHUTDOWN"
  shows "UpdateStateCountersLocked old new l =
         Inr (l\<lparr>num_ready :=
                  (if old = GRPC_CHANNEL_READY then num_ready l - 1
                   else if new = GRPC_CHANNEL_READY then num_ready l + 1 else num_ready l),
                num_connecting :=
                  (if old = GRPC_CHANNEL_CONNECTING then num_connecting l - 1
                   else if new = GRPC_CHANNEL_CONNECTING then num_connecting l + 1
                   else num_connecting l),
                num_transient_failure :=
                  (if old = GRPC_CHANNEL_TRANSIENT_FAILURE then num_transient_failure l - 1
                   else if new = GRPC_CHANNEL_TRANSIENT_FAILURE then num_transient_failure l + 1
                   else num_transient_failure l)\<rparr>)"
proof -
  have o: "old \<noteq> GRPC_CHANNEL_SHUTDOWN"
    using consistent_no_SHUTDOWN assms by blast
  have pos: "0 < count_state old l"
    using count_state_pos assms by blast
  have room: "count_state new l < SIZE_MAX"
    using consistent_room [of l i new] assms by simp
  have c: "count_state GRPC_CHANNEL_READY l = num_ready l"
      "count_state GRPC_CHANNEL_CONNECTING l = num_connecting l"
      "count_state GRPC_CHANNEL_TRANSIENT_FAILURE l = num_transient_failure l"
    using assms(1) by (simp_all add: counters_consistent_def)
  have p: "old = GRPC_CHANNEL_READY \<Longrightarrow> 0 < num_ready l"
      "old = GRPC_CHANNEL_CONNECTING \<Longrightarrow> 0 < num_connecting l"
      "old = GRPC_CHANNEL_TRANSIENT_FAILURE \<Longrightarrow> 0 < num_transient_failure l"
    using pos c by auto
  have r: "new = GRPC_CHANNEL_READY \<Longrightarrow> size_t_incr (num_ready l) = num_ready l + 1"
      "new = GRPC_CHANNEL_CONNECTING \<Longrightarrow> size_t_incr (num_connecting l) = num_connecting l + 1"
      "new = GRPC_CHANNEL_TRANSIENT_FAILURE \<Longrightarrow>
         size_t_incr (num_transient_failure l) = num_transient_failure l + 1"
    using room c by (auto simp add: size_t_incr_no_wrap)
  show ?thesis
    using o assms(4,5) p r
    by (auto simp add: UpdateStateCountersLocked_def)
qed

lemma UpdateStateCountersLocked_data:
  "UpdateStateCountersLocked old new l = Inr l' \<Longrightarrow> subchannel_data l' = subchannel_data l"
  by (auto simp add: UpdateStateCountersLocked_def split: if_splits)

lemma UpdateLogical_sticky:
  "i < num_subchannels l \<Longrightarrow>
   logical_connectivity_state (subchannel_data l ! i) = GRPC_CHANNEL_TRANSIENT_FAILURE \<Longrightarrow>
   raw \<noteq> GRPC_CHANNEL_READY \<Longrightarrow>
   UpdateLogicalConnectivityStateLocked i raw l = Inr (False, l)"
  by (simp add: UpdateLogicalConnectivityStateLocked_def)

lemma UpdateLogical_same:
  "i < num_subchannels l \<Longrightarrow>
   logical_connectivity_state (subchannel_data l ! i) =
     (if raw = GRPC_CHANNEL_IDLE then GRPC_CHANNEL_CONNECTING else raw) \<Longrightarrow>
   UpdateLogicalConnectivityStateLocked i raw l = Inr (False, l)"
  by (simp add: UpdateLogicalConnectivityStateLocked_def Let_def)

lemma UpdateLogical_unfold:
  assumes "i < num_subchannels l"
    and "\<not> (logical_connectivity_state (subchannel_data l ! i) = GRPC_CHANNEL_TRANSIENT_FAILURE \<and>
            raw \<noteq> GRPC_CHANNEL_READY)"
    and "logical_connectivity_state (subchannel_data l ! i) \<noteq>
           (if raw = GRPC_CHANNEL_IDLE then GRPC_CHANNEL_CONNECTING else raw)"
  shows "UpdateLogicalConnectivityStateLocked i raw l =
     (case UpdateStateCountersLocked (logical_connectivity_state (subchannel_data l ! i))
             (if raw = GRPC_CHANNEL_IDLE then GRPC_CHANNEL_CONNECTING else raw) l of
        Inl e \<Rightarrow> Inl e
      | Inr l' \<Rightarrow>
          Inr (True,
               l'\<lparr>subchannel_data :=
                    (subchannel_data l')
                      [i := (subchannel_data l ! i)\<lparr>logical_connectivity_state :=
                         (if raw = GRPC_CHANNEL_IDLE then GRPC_CHANNEL_CONNECTING else raw)\<rparr>]\<rparr>))"
  using assms by (auto simp add: UpdateLogicalConnectivityStateLocked_def Let_def)

lemma UpdateLogical_cases:
  assumes "UpdateLogicalConnectivityStateLocked i raw l = Inr (b, l')"
  shows "i < num_subchannels l \<and>
    (if b then
       \<not> (logical_connectivity_state (subchannel_data l ! i) = GRPC_CHANNEL_TRANSIENT_FAILURE \<and>
            raw \<noteq> GRPC_CHANNEL_READY) \<and>
       logical_connectivity_state (subchannel_data l ! i) \<noteq>
         (if raw = GRPC_CHANNEL_IDLE then GRPC_CHANNEL_CONNECTING else raw) \<and>
       (\<exists>lc. UpdateStateCountersLocked (logical_connectivity_state (subchannel_data l ! i))
                (if raw = GRPC_CHANNEL_IDLE then GRPC_CHANNEL_CONNECTING else raw) l = Inr lc \<and>
             l' = lc\<lparr>subchannel_data :=
                    (subchannel_data l)
                      [i := (subchannel_data l ! i)\<lparr>logical_connectivity_state :=
                         (if raw = GRPC_CHANNEL_IDLE then GRPC_CHANNEL_CONNECTING else raw)\<rparr>]\<rparr>)
     else
       l' = l \<and>
       ((logical_connectivity_state (subchannel_data l ! i) = GRPC_CHANNEL_TRANSIENT_FAILURE \<and>
            raw \<noteq> GRPC_CHANNEL_READY) \<or>
        logical_connectivity_state (subchannel_data l ! i) =
         (if raw = GRPC_CHANNEL_IDLE then GRPC_CHANNEL_CONNECTING else raw)))"
proof -
  have i: "i < num_subchannels l"
    using assms by (auto simp add: UpdateLogicalConnectivityStateLocked_def split: if_splits)
  show ?thesis
  proof (cases "logical_connectivity_state (subchannel_data l ! i) = GRPC_CHANNEL_TRANSIENT_FAILURE \<and>
            raw \<noteq> GRPC_CHANNEL_READY")
    case True
    then show ?thesis
      using assms i UpdateLogical_sticky [of i l raw] by auto
  next
    case nst: False
    show ?thesis
    proof (cases "logical_connectivity_state (subchannel_data l ! i) =
         (if raw = GRPC_CHANNEL_IDLE then GRPC_CHANNEL_CONNECTING else raw)")
      case True
      then show ?thesis
        using assms i UpdateLogical_same [of i l raw] by auto
    next
      case False
      from UpdateLogical_unfold [OF i nst False] assms
      obtain lc where lc: "UpdateStateCountersLocked (logical_connectivity_state (subchannel_data l ! i))
             (if raw = GRPC_CHANNEL_IDLE then GRPC_CHANNEL_CONNECTING else raw) l = Inr lc"
        and r: "(b, l') = (True, lc\<lparr>subchannel_data :=
                    (subchannel_data lc)
                      [i := (subchannel_data l ! i)\<lparr>logical_connectivity_state :=
                         (if raw = GRPC_CHANNEL_IDLE then GRPC_CHANNEL_CONNECTING else raw)\<rparr>]\<rparr>)"
        by (auto split: sum.splits)
      from UpdateStateCountersLocked_data [OF lc] r lc nst False i
      show ?thesis by auto
    qed
  qed
qed

lemma UpdateLogical_changed:
  assumes cc: "counters_consistent l" and i: "i < num_subchannels l"
    and old: "old = logical_connectivity_state (subchannel_data l ! i)"
    and new: "new = (if raw = GRPC_CHANNEL_IDLE then GRPC_CHANNEL_CONNECTING else raw)"
    and nst: "\<not> (old = GRPC_CHANNEL_TRANSIENT_FAILURE \<and> raw \<noteq> GRPC_CHANNEL_READY)"
    and ne: "old \<noteq> new" and ns: "raw \<noteq> GRPC_CHANNEL_SHUTDOWN"
  shows "UpdateLogicalConnectivityStateLocked i raw l =
     Inr (True,
          l\<lparr>subchannel_data :=
               (subchannel_data l)[i := (subchannel_data l ! i)\<lparr>logical_connectivity_state := new\<rparr>],
            num_ready :=
              (if old = GRPC_CHANNEL_READY then num_ready l - 1
               else if new = GRPC_CHANNEL_READY then num_ready l + 1 else num_ready l),
            num_connecting :=
              (if old = GRPC_CHANNEL_CONNECTING then num_connecting l - 1
               else if new = GRPC_CHANNEL_CONNECTING then num_connecting l + 1
               else num_connecting l),
            num_transient_failure :=
              (if old = GRPC_CHANNEL_TRANSIENT_FAILURE then num_transient_failure l - 1
               else if new = GRPC_CHANNEL_TRANSIENT_FAILURE then num_transient_failure l + 1
               else num_transient_failure l)\<rparr>)"
proof -
  have n: "new \<noteq> GRPC_CHANNEL_SHUTDOWN"
    using new ns by (auto split: if_splits)
  note c = UpdateStateCountersLocked_ok [OF cc i old [symmetric] ne n]
  have u: "UpdateLogicalConnectivityStateLocked i raw l =
     (case UpdateStateCountersLocked old new l of
        Inl e \<Rightarrow> Inl e
      | Inr l' \<Rightarrow>
          Inr (True,
               l'\<lparr>subchannel_data :=
                    (subchannel_data l')
                      [i := (subchannel_data l ! i)\<lparr>logical_connectivity_state := new\<rparr>]\<rparr>))"
    using UpdateLogical_unfold [of i l raw] i nst ne unfolding old new by simp
  show ?thesis
    unfolding u c by simp
qed

lemma UpdateLogical_shutdown:
  assumes "counters_consistent l" and "i < num_subchannels l"
    and "logical_connectivity_state (subchannel_data l ! i) \<noteq> GRPC_CHANNEL_TRANSIENT_FAILURE"
  shows "UpdateLogicalConnectivityStateLocked i GRPC_CHANNEL_SHUTDOWN l = Inl AssertionFailed"
proof -
  have "logical_connectivity_state (subchannel_data l ! i) \<noteq> GRPC_CHANNEL_SHUTDOWN"
    using consistent_no_SHUTDOWN assms by blast
  then show ?thesis
    using assms UpdateLogical_unfold [of i l GRPC_CHANNEL_SHUTDOWN]
    by (simp add: UpdateStateCountersLocked_def)
qed

lemma UpdateLogical_twice:
  assumes "UpdateLogicalConnectivityStateLocked i raw l = Inr (b, l')"
  shows "UpdateLogicalConnectivityStateLocked i raw l' = Inr (False, l')"
proof (cases b)
  case False
  with UpdateLogical_cases [OF assms] have "l' = l" by simp
  with assms False show ?thesis by simp
next
  case True
  let ?new = "if raw = GRPC_CHANNEL_IDLE then GRPC_CHANNEL_CONNECTING else raw"
  from UpdateLogical_cases [OF assms] True
  obtain lc where i: "i < num_subchannels l"
    and l': "l' = lc\<lparr>subchannel_data :=
                    (subchannel_data l)
                      [i := (subchannel_data l ! i)\<lparr>logical_connectivity_state := ?new\<rparr>]\<rparr>"
    by auto
  have i': "i < num_subchannels l'"
    using i l' by (simp add: num_subchannels_def)
  have st: "logical_connectivity_state (subchannel_data l' ! i) = ?new"
    using i l' by (simp add: num_subchannels_def)
  show ?thesis
    using UpdateLogical_same [OF i' st] .
qed

lemma UpdateLogical_consistent:
  assumes cc: "counters_consistent l"
    and r: "UpdateLogicalConnectivityStateLocked i raw l = Inr (b, l')"
  shows "counters_consistent l' \<and> num_subchannels l' = num_subchannels l \<and>
         map subchannel (subchannel_data l') = map subchannel (subchannel_data l)"
proof (cases b)
  case False
  with UpdateLogical_cases [OF r] have "l' = l" by simp
  with cc show ?thesis by simp
next
  case True
  let ?old = "logical_connectivity_state (subchannel_data l ! i)"
  let ?new = "if raw = GRPC_CHANNEL_IDLE then GRPC_CHANNEL_CONNECTING else raw"
  let ?d = "(subchannel_data l)[i := (subchannel_data l ! i)\<lparr>logical_connectivity_state := ?new\<rparr>]"
  from UpdateLogical_cases [OF r] True
  obtain lc where i: "i < num_subchannels l"
    and nst: "\<not> (?old = GRPC_CHANNEL_TRANSIENT_FAILURE \<and> raw \<noteq> GRPC_CHANNEL_READY)"
    and ne: "?old \<noteq> ?new"
    and lc: "UpdateStateCountersLocked ?old ?new l = Inr lc"
    and l': "l' = lc\<lparr>subchannel_data := ?d\<rparr>"
    by auto
  have ns: "raw \<noteq> GRPC_CHANNEL_SHUTDOWN"
    using lc by (auto simp add: UpdateStateCountersLocked_def split: if_splits)
  then have n: "?new \<noteq> GRPC_CHANNEL_SHUTDOWN" by simp
  note ok = UpdateStateCountersLocked_ok [OF cc i refl ne n]
  have cnt: "count_state s l' + (if s = ?old then 1 else 0) =
             count_state s l + (if s = ?new then 1 else 0)" for s
    using count_state_update [OF i refl ne, of s lc] l' by simp
  have pos: "0 < count_state ?old l"
    using count_state_pos [OF i refl] .
  have o: "?old \<noteq> GRPC_CHANNEL_SHUTDOWN"
    using consistent_no_SHUTDOWN [OF cc i] .
  have c: "num_ready l = count_state GRPC_CHANNEL_READY l"
      "num_connecting l = count_state GRPC_CHANNEL_CONNECTING l"
      "num_transient_failure l = count_state GRPC_CHANNEL_TRANSIENT_FAILURE l"
      "count_state GRPC_CHANNEL_SHUTDOWN l = 0"
      "num_subchannels l \<le> SIZE_MAX"
    using cc by (simp_all add: counters_consistent_def)
  have len: "num_subchannels l' = num_subchannels l"
    using l' by (simp add: num_subchannels_def)
  have f: "num_ready l' =
              (if ?old = GRPC_CHANNEL_READY then num_ready l - 1
               else if ?new = GRPC_CHANNEL_READY then num_ready l + 1 else num_ready l)"
     "num_connecting l' =
              (if ?old = GRPC_CHANNEL_CONNECTING then num_connecting l - 1
               else if ?new = GRPC_CHANNEL_CONNECTING then num_connecting l + 1
               else num_connecting l)"
     "num_transient_failure l' =
              (if ?old = GRPC_CHANNEL_TRANSIENT_FAILURE then num_transient_failure l - 1
               else if ?new = GRPC_CHANNEL_TRANSIENT_FAILURE then num_transient_failure l + 1
               else num_transient_failure l)"
    using lc l' unfolding ok by auto
  have r1: "num_ready l' = count_state GRPC_CHANNEL_READY l'"
    using cnt [of GRPC_CHANNEL_READY] f(1) c(1) pos ne by (auto split: if_splits)
  have r2: "num_connecting l' = count_state GRPC_CHANNEL_CONNECTING l'"
    using cnt [of GRPC_CHANNEL_CONNECTING] f(2) c(2) pos ne by (auto split: if_splits)
  have r3: "num_transient_failure l' = count_state GRPC_CHANNEL_TRANSIENT_FAILURE l'"
    using cnt [of GRPC_CHANNEL_TRANSIENT_FAILURE] f(3) c(3) pos ne by (auto split: if_splits)
  have r4: "count_state GRPC_CHANNEL_SHUTDOWN l' = 0"
    using cnt [of GRPC_CHANNEL_SHUTDOWN] c(4) o n by (auto split: if_splits)
  have h: "map subchannel (subchannel_data l') = map subchannel (subchannel_data l)"
    using l' i by (simp add: num_subchannels_def map_update list_update_same_conv)
  show ?thesis
    using r1 r2 r3 r4 len c(5) h by (simp add: counters_consistent_def)
qed

lemma UpdateLogical_entry_behaviour:
  assumes "counters_consistent l" and "i < num_subchannels l"
  shows
    "(let old = logical_connectivity_state (subchannel_data l ! i);
          new = (if raw = GRPC_CHANNEL_IDLE then GRPC_CHANNEL_CONNECTING else raw)
      in
      if old = GRPC_CHANNEL_TRANSIENT_FAILURE \<and> raw \<noteq> GRPC_CHANNEL_READY then
        UpdateLogicalConnectivityStateLocked i raw l = Inr (False, l)
      else if new = old then
        UpdateLogicalConnectivityStateLocked i raw l = Inr (False, l)
      else if raw = GRPC_CHANNEL_SHUTDOWN then
        UpdateLogicalConnectivityStateLocked i raw l = Inl AssertionFailed
      else
        UpdateLogicalConnectivityStateLocked i raw l =
          Inr (True,
               l\<lparr>subchannel_data :=
                    (subchannel_data l)
                      [i := (subchannel_data l ! i)\<lparr>logical_connectivity_state := new\<rparr>],
                 num_ready :=
                   (if old = GRPC_CHANNEL_READY then num_ready l - 1
                    else if new = GRPC_CHANNEL_READY then num_ready l + 1 else num_ready l),
                 num_connecting :=
                   (if old = GRPC_CHANNEL_CONNECTING then num_connecting l - 1
                    else if new = GRPC_CHANNEL_CONNECTING then num_connecting l + 1
                    else num_connecting l),
                 num_transient_failure :=
                   (if old = GRPC_CHANNEL_TRANSIENT_FAILURE then num_transient_failure l - 1
                    else if new = GRPC_CHANNEL_TRANSIENT_FAILURE then num_transient_failure l + 1
                    else num_transient_failure l)\<rparr>)) \<and>
     (\<forall>b l'. UpdateLogicalConnectivityStateLocked i raw l = Inr (b, l') \<longrightarrow>
        UpdateLogicalConnectivityStateLocked i raw l' = Inr (False, l'))"
proof -
  let ?old = "logical_connectivity_state (subchannel_data l ! i)"
  let ?new = "if raw = GRPC_CHANNEL_IDLE then GRPC_CHANNEL_CONNECTING else raw"
  have twice: "\<forall>b l'. UpdateLogicalConnectivityStateLocked i raw l = Inr (b, l') \<longrightarrow>
        UpdateLogicalConnectivityStateLocked i raw l' = Inr (False, l')"
    using UpdateLogical_twice by blast
  consider
      (sticky) "?old = GRPC_CHANNEL_TRANSIENT_FAILURE \<and> raw \<noteq> GRPC_CHANNEL_READY"
    | (same) "\<not> (?old = GRPC_CHANNEL_TRANSIENT_FAILURE \<and> raw \<noteq> GRPC_CHANNEL_READY)" "?new = ?old"
    | (abort) "\<not> (?old = GRPC_CHANNEL_TRANSIENT_FAILURE \<and> raw \<noteq> GRPC_CHANNEL_READY)" "?new \<noteq> ?old"
        "raw = GRPC_CHANNEL_SHUTDOWN"
    | (change) "\<not> (?old = GRPC_CHANNEL_TRANSIENT_FAILURE \<and> raw \<noteq> GRPC_CHANNEL_READY)" "?new \<noteq> ?old"
        "raw \<noteq> GRPC_CHANNEL_SHUTDOWN"
    by blast
  then have "let old = ?old; new = ?new in
      if old = GRPC_CHANNEL_TRANSIENT_FAILURE \<and> raw \<noteq> GRPC_CHANNEL_READY then
        UpdateLogicalConnectivityStateLocked i raw l = Inr (False, l)
      else if new = old then
        UpdateLogicalConnectivityStateLocked i raw l = Inr (False, l)
      else if raw = GRPC_CHANNEL_SHUTDOWN then
        UpdateLogicalConnectivityStateLocked i raw l = Inl AssertionFailed
      else
        UpdateLogicalConnectivityStateLocked i raw l =
          Inr (True,
               l\<lparr>subchannel_data :=
                    (subchannel_data l)
                      [i := (subchannel_data l ! i)\<lparr>logical_connectivity_state := new\<rparr>],
                 num_ready :=
                   (if old = GRPC_CHANNEL_READY then num_ready l - 1
                    else if new = GRPC_CHANNEL_READY then num_ready l + 1 else num_ready l),
                 num_connecting :=
                   (if old = GRPC_CHANNEL_CONNECTING then num_connecting l - 1
                    else if new = GRPC_CHANNEL_CONNECTING then num_connecting l + 1
                    else num_connecting l),
                 num_transient_failure :=
                   (if old = GRPC_CHANNEL_TRANSIENT_FAILURE then num_transient_failure l - 1
                    else if new = GRPC_CHANNEL_TRANSIENT_FAILURE then num_transient_failure l + 1
                    else num_transient_failure l)\<rparr>)"
  proof cases
    case sticky
    then have c1: "(?old = GRPC_CHANNEL_TRANSIENT_FAILURE \<and> raw \<noteq> GRPC_CHANNEL_READY) = True"
      by simp
    from sticky UpdateLogical_sticky [OF assms(2), of raw]
    have "UpdateLogicalConnectivityStateLocked i raw l = Inr (False, l)" by simp
    then show ?thesis
      unfolding Let_def by (simp only: c1 if_True)
  next
    case same
    then have c1: "(?old = GRPC_CHANNEL_TRANSIENT_FAILURE \<and> raw \<noteq> GRPC_CHANNEL_READY) = False"
      and c2: "(?new = ?old) = True"
      by simp_all
    from UpdateLogical_same [OF assms(2) same(2) [symmetric]]
    show ?thesis
      unfolding Let_def by (simp only: c1 c2 if_True if_False)
  next
    case abort
    then have c1: "(?old = GRPC_CHANNEL_TRANSIENT_FAILURE \<and> raw \<noteq> GRPC_CHANNEL_READY) = False"
      and c2: "(?new = ?old) = False" and c3: "(raw = GRPC_CHANNEL_SHUTDOWN) = True"
      by simp_all
    from abort have "?old \<noteq> GRPC_CHANNEL_TRANSIENT_FAILURE" by simp
    from UpdateLogical_shutdown [OF assms this] abort(3)
    have "UpdateLogicalConnectivityStateLocked i raw l = Inl AssertionFailed" by simp
    then show ?thesis
      unfolding Let_def by (simp only: c1 c2 c3 if_True if_False)
  next
    case change
    then have c1: "(?old = GRPC_CHANNEL_TRANSIENT_FAILURE \<and> raw \<noteq> GRPC_CHANNEL_READY) = False"
      and c2: "(?new = ?old) = False" and c3: "(raw = GRPC_CHANNEL_SHUTDOWN) = False"
      by simp_all
    have ne: "?old \<noteq> ?new" using change(2) by simp
    from UpdateLogical_changed [OF assms refl refl change(1) ne change(3)]
    show ?thesis
      unfolding Let_def by (simp only: c1 c2 c3 if_True if_False)
  qed
  with twice show ?thesis by blast
qed

section \<open>Promotion and aggregation\<close>

lemma swap_condition_Inr:
  assumes "swap_condition this l p = Inr swap"
  shows "swap \<longleftrightarrow>
        latest_pending_subchannel_list p = Some this \<and>
        (subchannel_list p = None \<or>
         (\<exists>a al. subchannel_list p = Some a \<and> heap p a = Some al \<and>
            (num_ready al = 0 \<or> 0 < num_ready l \<or>
             num_transient_failure l = num_subchannels l)))"
  using assms
  by (auto simp add: swap_condition_def split: if_splits option.splits)

lemma swap_condition_live:
  assumes "well_formed p"
  shows "\<exists>swap. swap_condition this l p = Inr swap"
  using assms
  by (auto simp add: swap_condition_def well_formed_def split: option.splits)

lemma MaybeUpdate_Inr:
  assumes "MaybeUpdateRoundRobinConnectivityStateLocked rnd this st p = Inr p'"
    and "heap p this = Some l"
  shows "\<exists>swap cs.
     swap_condition this l p = Inr swap \<and>
     p' = (if swap then
             p\<lparr>subchannel_list := Some this, latest_pending_subchannel_list := None,
               heap := Orphan (subchannel_list p) (heap p)\<rparr>
           else p)\<lparr>calls := calls p @ cs\<rparr> \<and>
     (if subchannel_list p' \<noteq> Some this then cs = []
      else report_state rnd l st = Inr cs)"
proof -
  from assms obtain swap where sw: "swap_condition this l p = Inr swap"
    by (auto simp add: MaybeUpdateRoundRobinConnectivityStateLocked_def split: sum.splits)
  define p1 where "p1 = (if swap then
             p\<lparr>subchannel_list := Some this, latest_pending_subchannel_list := None,
               heap := Orphan (subchannel_list p) (heap p)\<rparr>
           else p)"
  have lp: "swap \<Longrightarrow> latest_pending_subchannel_list p = Some this"
    using swap_condition_Inr [OF sw] by simp
  have p1': "p1 = (if swap then
                    p\<lparr>subchannel_list := latest_pending_subchannel_list p,
                      latest_pending_subchannel_list := None,
                      heap := Orphan (subchannel_list p) (heap p)\<rparr>
                  else p)"
    using lp by (simp add: p1_def)
  have c1: "calls p1 = calls p"
    by (simp add: p1_def)
  have m: "MaybeUpdateRoundRobinConnectivityStateLocked rnd this st p =
      (if subchannel_list p1 \<noteq> Some this then Inr p1
       else (case report_state rnd l st of
               Inl e \<Rightarrow> Inl e
             | Inr cs \<Rightarrow> Inr (p1\<lparr>calls := calls p1 @ cs\<rparr>)))"
    unfolding p1' by (simp add: MaybeUpdateRoundRobinConnectivityStateLocked_def assms(2) sw Let_def)
  show ?thesis
  proof (cases "subchannel_list p1 \<noteq> Some this")
    case True
    with m assms(1) have "p' = p1" by simp
    then have "p' = p1\<lparr>calls := calls p @ []\<rparr>" using c1 by simp
    with True \<open>p' = p1\<close> sw show ?thesis
      unfolding p1_def by (intro exI [of _ swap] exI [of _ "[]"]) simp
  next
    case False
    with m assms(1) obtain cs where r: "report_state rnd l st = Inr cs"
      and p': "p' = p1\<lparr>calls := calls p1 @ cs\<rparr>"
      by (auto split: sum.splits)
    from p' False have "subchannel_list p' = Some this" by simp
    with r p' c1 sw show ?thesis
      unfolding p1_def by (intro exI [of _ swap] exI [of _ cs]) simp
  qed
qed


lemma length_filter_eq_length:
  "length (filter P xs) = length xs \<longleftrightarrow> (\<forall>x\<in>set xs. P x)"
proof (induction xs)
  case Nil
  then show ?case by simp
next
  case (Cons x xs)
  have "length (filter P xs) \<noteq> Suc (length xs)"
    using length_filter_le [of P xs] by arith
  with Cons show ?case by auto
qed

lemma consistent_entries:
  assumes "counters_consistent m"
  shows "(0 < num_ready m \<longleftrightarrow>
            (\<exists>sd\<in>set (subchannel_data m). logical_connectivity_state sd = GRPC_CHANNEL_READY)) \<and>
         (num_transient_failure m = num_subchannels m \<longleftrightarrow>
            (\<forall>sd\<in>set (subchannel_data m).
               logical_connectivity_state sd = GRPC_CHANNEL_TRANSIENT_FAILURE))"
proof -
  have r: "num_ready m = count_state GRPC_CHANNEL_READY m"
    and t: "num_transient_failure m = count_state GRPC_CHANNEL_TRANSIENT_FAILURE m"
    using assms by (simp_all add: counters_consistent_def)
  have "0 < count_state GRPC_CHANNEL_READY m \<longleftrightarrow>
            (\<exists>sd\<in>set (subchannel_data m). logical_connectivity_state sd = GRPC_CHANNEL_READY)"
    by (simp add: count_state_def filter_empty_conv)
  moreover have "count_state GRPC_CHANNEL_TRANSIENT_FAILURE m = num_subchannels m \<longleftrightarrow>
            (\<forall>sd\<in>set (subchannel_data m).
               logical_connectivity_state sd = GRPC_CHANNEL_TRANSIENT_FAILURE)"
    by (simp add: count_state_def num_subchannels_def length_filter_eq_length)
  ultimately show ?thesis
    by (simp only: r t)
qed

text \<open>
  Claim C1. Let the promotion-and-aggregation procedure run on the list at \<open>this\<close> of a
  well-formed policy and return. If the list is the pending list, it is the active list
  afterwards if and only if there was no active list, or the active list's READY counter is
  zero, or this list's READY counter is positive, or its TRANSIENT_FAILURE counter equals
  its number of entries (true of an empty list); when it is promoted the pending pointer
  is null and the previous active list has left the heap, and otherwise both pointers and
  the heap are as before. If the list is not the pending list, both pointers and the heap
  are as before: it is never promoted. On a consistent list the READY counter is positive
  exactly when some entry is READY, and the TRANSIENT_FAILURE counter equals the number of
  entries exactly when every entry is in TRANSIENT_FAILURE.
\<close>

theorem promotion_iff:
  assumes wf: "well_formed p" and l: "heap p this = Some l"
    and r: "MaybeUpdateRoundRobinConnectivityStateLocked rnd this st p = Inr p'"
  shows
    "(if latest_pending_subchannel_list p = Some this then
        (subchannel_list p' = Some this \<longleftrightarrow>
           subchannel_list p = None \<or>
           (\<exists>a al. subchannel_list p = Some a \<and> heap p a = Some al \<and> num_ready al = 0) \<or>
           0 < num_ready l \<or>
           num_transient_failure l = num_subchannels l) \<and>
        (if subchannel_list p' = Some this then
           latest_pending_subchannel_list p' = None \<and>
           heap p' = Orphan (subchannel_list p) (heap p) \<and>
           heap p' this = Some l \<and>
           (\<forall>a. subchannel_list p = Some a \<longrightarrow> heap p' a = None)
         else
           subchannel_list p' = subchannel_list p \<and>
           latest_pending_subchannel_list p' = latest_pending_subchannel_list p \<and>
           heap p' = heap p)
      else
        subchannel_list p' = subchannel_list p \<and>
        latest_pending_subchannel_list p' = latest_pending_subchannel_list p \<and>
        heap p' = heap p) \<and>
     (\<forall>m. counters_consistent m \<longrightarrow>
        (0 < num_ready m \<longleftrightarrow>
           (\<exists>sd\<in>set (subchannel_data m). logical_connectivity_state sd = GRPC_CHANNEL_READY)) \<and>
        (num_transient_failure m = num_subchannels m \<longleftrightarrow>
           (\<forall>sd\<in>set (subchannel_data m).
              logical_connectivity_state sd = GRPC_CHANNEL_TRANSIENT_FAILURE)))"
proof -
  from MaybeUpdate_Inr [OF r l] obtain swap cs where
    sw: "swap_condition this l p = Inr swap"
    and p': "p' = (if swap then
             p\<lparr>subchannel_list := Some this, latest_pending_subchannel_list := None,
               heap := Orphan (subchannel_list p) (heap p)\<rparr>
           else p)\<lparr>calls := calls p @ cs\<rparr>"
    by blast
  note c = swap_condition_Inr [OF sw]
  have first: "if latest_pending_subchannel_list p = Some this then
        (subchannel_list p' = Some this \<longleftrightarrow>
           subchannel_list p = None \<or>
           (\<exists>a al. subchannel_list p = Some a \<and> heap p a = Some al \<and> num_ready al = 0) \<or>
           0 < num_ready l \<or>
           num_transient_failure l = num_subchannels l) \<and>
        (if subchannel_list p' = Some this then
           latest_pending_subchannel_list p' = None \<and>
           heap p' = Orphan (subchannel_list p) (heap p) \<and>
           heap p' this = Some l \<and>
           (\<forall>a. subchannel_list p = Some a \<longrightarrow> heap p' a = None)
         else
           subchannel_list p' = subchannel_list p \<and>
           latest_pending_subchannel_list p' = latest_pending_subchannel_list p \<and>
           heap p' = heap p)
      else
        subchannel_list p' = subchannel_list p \<and>
        latest_pending_subchannel_list p' = latest_pending_subchannel_list p \<and>
        heap p' = heap p"
  proof (cases "latest_pending_subchannel_list p = Some this")
    case False
    with c have "\<not> swap" by simp
    with p' False show ?thesis by simp
  next
    case True
    with wf have ne: "subchannel_list p \<noteq> Some this"
      and live: "\<And>a. subchannel_list p = Some a \<Longrightarrow> \<exists>al. heap p a = Some al"
      by (auto simp add: well_formed_def split: option.splits)
    have cond: "swap \<longleftrightarrow>
           subchannel_list p = None \<or>
           (\<exists>a al. subchannel_list p = Some a \<and> heap p a = Some al \<and> num_ready al = 0) \<or>
           0 < num_ready l \<or>
           num_transient_failure l = num_subchannels l"
      using c True live by (cases "subchannel_list p") auto
    show ?thesis
    proof (cases swap)
      case sw: True
      have "subchannel_list p' = Some this" "latest_pending_subchannel_list p' = None"
        "heap p' = Orphan (subchannel_list p) (heap p)"
        using sw p' by simp_all
      moreover have "heap p' this = Some l"
        using sw p' ne l by (cases "subchannel_list p") (simp_all add: Orphan_def)
      moreover have "\<forall>a. subchannel_list p = Some a \<longrightarrow> heap p' a = None"
        using sw p' by (simp add: Orphan_def)
      ultimately show ?thesis
        using True cond sw by simp
    next
      case nsw: False
      have "subchannel_list p' = subchannel_list p"
        "latest_pending_subchannel_list p' = latest_pending_subchannel_list p"
        "heap p' = heap p"
        using nsw p' by simp_all
      then show ?thesis
        using True cond nsw ne by simp
    qed
  qed
  with consistent_entries show ?thesis
    by blast
qed


lemma example_picker:
  "Picker_ctor 4 example_pending = Inr \<lparr>last_picked_index = 0, subchannels = [8, 10]\<rparr>"
proof -
  have "(4::nat) mod Suc (Suc 0) = 0" by arith
  then show ?thesis
    by (simp add: Picker_ctor_def example_pending_def)
qed

lemma example_policy_facts:
  "well_formed example_policy"
  "heap example_policy 4 = Some example_pending"
  "heap example_policy 3 = Some example_active"
  "MaybeUpdateRoundRobinConnectivityStateLocked 4 4 OkStatus example_policy =
     Inr \<lparr>subchannel_list = Some 4, latest_pending_subchannel_list = None, shutdown = False,
          heap = [4 \<mapsto> example_pending], next_ptr = 5,
          calls = [UpdateState GRPC_CHANNEL_READY OkStatus
                     (RoundRobinPicker \<lparr>last_picked_index = 0, subchannels = [8, 10]\<rparr>)]\<rparr>"
proof -
  show "well_formed example_policy"
    by (simp add: well_formed_def example_policy_def)
  show h4: "heap example_policy 4 = Some example_pending"
    by (simp add: example_policy_def)
  show "heap example_policy 3 = Some example_active"
    by (simp add: example_policy_def)
  have sw: "swap_condition 4 example_pending example_policy = Inr True"
    by (simp add: swap_condition_def example_policy_def example_pending_def example_active_def)
  have rp: "report_state 4 example_pending OkStatus =
      Inr [UpdateState GRPC_CHANNEL_READY OkStatus
             (RoundRobinPicker \<lparr>last_picked_index = 0, subchannels = [8, 10]\<rparr>)]"
    by (simp add: report_state_def example_picker) (simp add: example_pending_def)
  have h: "Orphan (Some 3) [3 \<mapsto> example_active, 4 \<mapsto> example_pending] = [4 \<mapsto> example_pending]"
    by (auto simp add: Orphan_def)
  have "MaybeUpdateRoundRobinConnectivityStateLocked 4 4 OkStatus example_policy =
     Inr (example_policy\<lparr>subchannel_list := latest_pending_subchannel_list example_policy,
            latest_pending_subchannel_list := None,
            heap := Orphan (subchannel_list example_policy) (heap example_policy),
            calls := calls example_policy @
               [UpdateState GRPC_CHANNEL_READY OkStatus
                 (RoundRobinPicker \<lparr>last_picked_index = 0, subchannels = [8, 10]\<rparr>)]\<rparr>)"
    unfolding MaybeUpdateRoundRobinConnectivityStateLocked_def
    by (simp add: h4 sw rp Let_def) (simp add: example_policy_def)
  then show "MaybeUpdateRoundRobinConnectivityStateLocked 4 4 OkStatus example_policy =
     Inr \<lparr>subchannel_list = Some 4, latest_pending_subchannel_list = None, shutdown = False,
          heap = [4 \<mapsto> example_pending], next_ptr = 5,
          calls = [UpdateState GRPC_CHANNEL_READY OkStatus
                     (RoundRobinPicker \<lparr>last_picked_index = 0, subchannels = [8, 10]\<rparr>)]\<rparr>"
    by (simp add: example_policy_def h)
qed

theorem promotion_iff_witness:
  "well_formed example_policy \<and>
   (\<exists>p'. MaybeUpdateRoundRobinConnectivityStateLocked 4 4 OkStatus example_policy = Inr p' \<and>
      subchannel_list p' = Some 4 \<and> latest_pending_subchannel_list p' = None \<and>
      heap p' 3 = None \<and> heap p' 4 = Some example_pending)"
proof -
  note f = example_policy_facts
  from promotion_iff [OF f(1) f(2) f(4), THEN conjunct1]
  have "subchannel_list \<lparr>subchannel_list = Some 4, latest_pending_subchannel_list = None,
          shutdown = False, heap = [4 \<mapsto> example_pending], next_ptr = 5,
          calls = [UpdateState GRPC_CHANNEL_READY OkStatus
                     (RoundRobinPicker \<lparr>last_picked_index = 0, subchannels = [8, 10]\<rparr>)]\<rparr> = Some 4"
    by (simp add: example_policy_def example_pending_def)
  with f(1) f(4) show ?thesis by simp
qed

text \<open>
  Claim C2. When the procedure returns, it has called the helper's \<^verbatim>\<open>UpdateState\<close> only if
  the list at \<open>this\<close> is the active list after the promotion step, and then by the first rule
  that matches: READY with a new Picker over this list's READY subchannels (in list order,
  cursor \<open>rand() mod\<close> their number) when \<open>num_ready > 0\<close>; else CONNECTING with the queue
  picker when \<open>num_connecting > 0\<close>; else TRANSIENT_FAILURE with the given status and a
  fail-fast picker carrying it when \<open>num_transient_failure\<close> equals the number of entries;
  else no call at all.
\<close>

theorem report_after_promotion:
  assumes l: "heap p this = Some l"
    and r: "MaybeUpdateRoundRobinConnectivityStateLocked rnd this st p = Inr p'"
  shows
    "if subchannel_list p' \<noteq> Some this then calls p' = calls p
     else if 0 < num_ready l then
       (\<exists>picker. Picker_ctor rnd l = Inr picker \<and>
          map Some (subchannels picker) =
            map subchannel
              (filter (\<lambda>sd. logical_connectivity_state sd = GRPC_CHANNEL_READY)
                 (subchannel_data l)) \<and>
          last_picked_index picker = rnd mod length (subchannels picker) \<and>
          calls p' = calls p @ [UpdateState GRPC_CHANNEL_READY OkStatus (RoundRobinPicker picker)])
     else if 0 < num_connecting l then
       calls p' = calls p @ [UpdateState GRPC_CHANNEL_CONNECTING OkStatus QueuePicker]
     else if num_transient_failure l = num_subchannels l then
       calls p' = calls p @
         [UpdateState GRPC_CHANNEL_TRANSIENT_FAILURE st (TransientFailurePicker st)]
     else calls p' = calls p"
proof -
  from MaybeUpdate_Inr [OF r l] obtain swap cs where
    p': "p' = (if swap then
             p\<lparr>subchannel_list := Some this, latest_pending_subchannel_list := None,
               heap := Orphan (subchannel_list p) (heap p)\<rparr>
           else p)\<lparr>calls := calls p @ cs\<rparr>"
    and cs: "if subchannel_list p' \<noteq> Some this then cs = []
             else report_state rnd l st = Inr cs"
    by blast
  have c: "calls p' = calls p @ cs"
    using p' by simp
  show ?thesis
  proof (cases "subchannel_list p' \<noteq> Some this")
    case True
    with cs c show ?thesis by simp
  next
    case False
    with cs have rep: "report_state rnd l st = Inr cs" by simp
    show ?thesis
    proof (cases "0 < num_ready l")
      case True
      with rep obtain picker where pk: "Picker_ctor rnd l = Inr picker"
        and "cs = [UpdateState GRPC_CHANNEL_READY OkStatus (RoundRobinPicker picker)]"
        by (auto simp add: report_state_def split: sum.splits)
      with Picker_ctor_Inr [OF pk] c False True show ?thesis by auto
    next
      case nr: False
      with rep c False show ?thesis
        by (auto simp add: report_state_def split: if_splits)
    qed
  qed
qed

theorem report_after_promotion_witness:
  "\<exists>p'. MaybeUpdateRoundRobinConnectivityStateLocked 4 4 OkStatus example_policy = Inr p' \<and>
      subchannel_list p' = Some 4 \<and>
      calls p' = [UpdateState GRPC_CHANNEL_READY OkStatus
                    (RoundRobinPicker \<lparr>last_picked_index = 0, subchannels = [8, 10]\<rparr>)]"
proof -
  note f = example_policy_facts
  from report_after_promotion [OF f(2) f(4)]
  have "calls \<lparr>subchannel_list = Some 4, latest_pending_subchannel_list = None,
          shutdown = False, heap = [4 \<mapsto> example_pending], next_ptr = 5,
          calls = [UpdateState GRPC_CHANNEL_READY OkStatus
                     (RoundRobinPicker \<lparr>last_picked_index = 0, subchannels = [8, 10]\<rparr>)]\<rparr> =
        calls example_policy @ [UpdateState GRPC_CHANNEL_READY OkStatus
                     (RoundRobinPicker \<lparr>last_picked_index = 0, subchannels = [8, 10]\<rparr>)]"
    by (simp add: example_picker) (simp add: example_pending_def)
  with f(4) show ?thesis by (simp add: example_policy_def)
qed

lemma MaybeUpdate_returns:
  assumes "well_formed p" and "heap p this = Some l" and "counters_consistent l"
    and "\<forall>sd\<in>set (subchannel_data l).
            logical_connectivity_state sd = GRPC_CHANNEL_READY \<longrightarrow> subchannel sd \<noteq> None"
  shows "\<exists>p'. MaybeUpdateRoundRobinConnectivityStateLocked rnd this st p = Inr p'"
proof -
  from swap_condition_live [OF assms(1)] obtain swap where
    sw: "swap_condition this l p = Inr swap" by blast
  from Picker_subchannels_total [OF assms(4)] obtain scs where
    scs: "Picker_subchannels (subchannel_data l) = Inr scs" by blast
  have "0 < num_ready l \<Longrightarrow> scs \<noteq> []"
  proof -
    assume "0 < num_ready l"
    with consistent_entries [OF assms(3)] have
      "filter (\<lambda>sd. logical_connectivity_state sd = GRPC_CHANNEL_READY) (subchannel_data l) \<noteq> []"
      by (simp add: filter_empty_conv)
    with Picker_subchannels_Inr [OF scs] show "scs \<noteq> []"
      by (metis map_is_Nil_conv)
  qed
  then have "\<exists>cs. report_state rnd l st = Inr cs"
    by (auto simp add: report_state_def Picker_ctor_def scs)
  then obtain cs where "report_state rnd l st = Inr cs" by blast
  with sw assms(2) show ?thesis
    by (simp add: MaybeUpdateRoundRobinConnectivityStateLocked_def Let_def)
qed

section \<open>Updates, start-up and shutdown\<close>

lemma report_state_calls:
  "report_state rnd l st = Inr cs \<Longrightarrow> \<forall>c\<in>set cs. \<exists>s st' pk. c = UpdateState s st' pk"
  by (auto simp add: report_state_def split: if_splits sum.splits)

lemma MaybeUpdate_effects:
  assumes "MaybeUpdateRoundRobinConnectivityStateLocked rnd this st p = Inr p'"
    and "heap p this = Some l"
  shows "(\<exists>cs. calls p' = calls p @ cs \<and> (\<forall>c\<in>set cs. \<exists>s st' pk. c = UpdateState s st' pk)) \<and>
         (\<forall>q m. heap p' q = Some m \<longrightarrow> heap p q = Some m) \<and>
         shutdown p' = shutdown p \<and> next_ptr p' = next_ptr p"
proof -
  from MaybeUpdate_Inr [OF assms] obtain swap cs where
    p': "p' = (if swap then
             p\<lparr>subchannel_list := Some this, latest_pending_subchannel_list := None,
               heap := Orphan (subchannel_list p) (heap p)\<rparr>
           else p)\<lparr>calls := calls p @ cs\<rparr>"
    and cs: "if subchannel_list p' \<noteq> Some this then cs = []
             else report_state rnd l st = Inr cs"
    by blast
  have "\<forall>c\<in>set cs. \<exists>s st' pk. c = UpdateState s st' pk"
    using cs report_state_calls [of rnd l st cs] by (auto split: if_splits)
  moreover have "calls p' = calls p @ cs"
    using p' by simp
  moreover have "\<forall>q m. heap p' q = Some m \<longrightarrow> heap p q = Some m"
    using p' by (auto simp add: Orphan_def split: option.splits if_splits)
  moreover have "shutdown p' = shutdown p \<and> next_ptr p' = next_ptr p"
    using p' by simp
  ultimately show ?thesis by blast
qed

lemma StartWatching_Inr:
  assumes "StartWatchingLocked chk rnd this st p = Inr p'" and "heap p this = Some l"
  shows "\<exists>l'. StartWatching_check_loop chk [0..<num_subchannels l] l = Inr l' \<and>
     MaybeUpdateRoundRobinConnectivityStateLocked rnd this st
       (p\<lparr>heap := (heap p)(this \<mapsto> l'),
          calls := calls p @ StartWatching_watch_loop (subchannel_data l')\<rparr>) = Inr p'"
  using assms by (auto simp add: StartWatchingLocked_def split: sum.splits)

lemma UpdateLocked_Inr:
  assumes "UpdateLocked create chk rnd args p = Inr p'"
    and "subchannel_list p = None \<or> (\<exists>a. addresses args = StatusOr_value a)"
  shows "StartWatchingLocked chk rnd (next_ptr p)
           (case addresses args of
              StatusOr_value a \<Rightarrow> UnavailableError (''empty address list: '' @ resolution_note args)
            | StatusOr_status s \<Rightarrow> s)
           (p\<lparr>heap := Orphan (latest_pending_subchannel_list p)
                     ((heap p)(next_ptr p \<mapsto>
                        RoundRobinSubchannelList_ctor create
                          (case addresses args of StatusOr_value a \<Rightarrow> a | StatusOr_status s \<Rightarrow> []))),
              latest_pending_subchannel_list := Some (next_ptr p),
              next_ptr := next_ptr p + 1\<rparr>) = Inr p'"
  using assms
  by (auto simp add: UpdateLocked_def Let_def split: StatusOr.splits)

text \<open>
  Claim C6. In every policy state with an active list, an Update that carries a resolver
  failure returns the state it was given: no list is created, the active list (its
  entries, their logical states, its counters) and the pending list are as before, and no
  call is made to the helper or to a subchannel.
\<close>

theorem resolver_failure_retained:
  assumes "subchannel_list p \<noteq> None" and "addresses args = StatusOr_status st"
  shows "UpdateLocked create chk rnd args p = Inr p"
  using assms by (simp add: UpdateLocked_def)

theorem resolver_failure_retained_witness:
  "subchannel_list example_policy \<noteq> None \<and>
   UpdateLocked example_CreateSubchannel example_all_idle 4
     \<lparr>addresses = StatusOr_status (OtherStatus 14 ''DNS resolution failed''),
      resolution_note = ''''\<rparr> example_policy = Inr example_policy"
proof -
  have a: "subchannel_list example_policy \<noteq> None"
    by (simp add: example_policy_def)
  have b: "addresses \<lparr>addresses = StatusOr_status (OtherStatus 14 ''DNS resolution failed''),
      resolution_note = ''''\<rparr> = StatusOr_status (OtherStatus 14 ''DNS resolution failed'')"
    by simp
  from resolver_failure_retained [OF a b] a show ?thesis by simp
qed

lemma check_loop_empty_list:
  "StartWatching_check_loop chk [0..<num_subchannels (RoundRobinSubchannelList_ctor create [])]
     (RoundRobinSubchannelList_ctor create []) = Inr (RoundRobinSubchannelList_ctor create [])"
  by (simp add: RoundRobinSubchannelList_ctor_def num_subchannels_def)

lemma Update_without_active:
  assumes wf: "well_formed p" and none: "subchannel_list p = None"
    and r: "UpdateLocked create chk rnd args p = Inr p'"
  shows "\<exists>l' cs.
     StartWatching_check_loop chk
       [0..<num_subchannels (RoundRobinSubchannelList_ctor create
              (case addresses args of StatusOr_value a \<Rightarrow> a | StatusOr_status s \<Rightarrow> []))]
       (RoundRobinSubchannelList_ctor create
              (case addresses args of StatusOr_value a \<Rightarrow> a | StatusOr_status s \<Rightarrow> [])) = Inr l' \<and>
     report_state rnd l'
       (case addresses args of
          StatusOr_value a \<Rightarrow> UnavailableError (''empty address list: '' @ resolution_note args)
        | StatusOr_status s \<Rightarrow> s) = Inr cs \<and>
     p' = p\<lparr>subchannel_list := Some (next_ptr p),
            latest_pending_subchannel_list := None,
            heap := (Orphan (latest_pending_subchannel_list p) (heap p))(next_ptr p \<mapsto> l'),
            next_ptr := next_ptr p + 1,
            calls := calls p @ StartWatching_watch_loop (subchannel_data l') @ cs\<rparr>"
proof -
  let ?new = "next_ptr p"
  let ?st = "case addresses args of
          StatusOr_value a \<Rightarrow> UnavailableError (''empty address list: '' @ resolution_note args)
        | StatusOr_status s \<Rightarrow> s"
  let ?l0 = "RoundRobinSubchannelList_ctor create
              (case addresses args of StatusOr_value a \<Rightarrow> a | StatusOr_status s \<Rightarrow> [])"
  let ?p1 = "p\<lparr>heap := Orphan (latest_pending_subchannel_list p) ((heap p)(?new \<mapsto> ?l0)),
              latest_pending_subchannel_list := Some ?new,
              next_ptr := ?new + 1\<rparr>"
  have fresh: "latest_pending_subchannel_list p \<noteq> Some ?new"
    using wf by (auto simp add: well_formed_def split: option.splits)
  have h1: "heap ?p1 = (Orphan (latest_pending_subchannel_list p) (heap p))(?new \<mapsto> ?l0)"
    using fresh by (cases "latest_pending_subchannel_list p") (auto simp add: Orphan_def)
  then have h1n: "heap ?p1 ?new = Some ?l0" by simp
  from UpdateLocked_Inr [OF r] none
  have sw: "StartWatchingLocked chk rnd ?new ?st ?p1 = Inr p'" by simp
  from StartWatching_Inr [OF sw h1n] obtain l' where
    cl: "StartWatching_check_loop chk [0..<num_subchannels ?l0] ?l0 = Inr l'"
    and mu: "MaybeUpdateRoundRobinConnectivityStateLocked rnd ?new ?st
       (?p1\<lparr>heap := (heap ?p1)(?new \<mapsto> l'),
          calls := calls ?p1 @ StartWatching_watch_loop (subchannel_data l')\<rparr>) = Inr p'"
    by blast
  let ?p2 = "?p1\<lparr>heap := (heap ?p1)(?new \<mapsto> l'),
          calls := calls ?p1 @ StartWatching_watch_loop (subchannel_data l')\<rparr>"
  have h2n: "heap ?p2 ?new = Some l'" by simp
  from MaybeUpdate_Inr [OF mu h2n] obtain swap cs where
    s: "swap_condition ?new l' ?p2 = Inr swap"
    and p': "p' = (if swap then
             ?p2\<lparr>subchannel_list := Some ?new, latest_pending_subchannel_list := None,
               heap := Orphan (subchannel_list ?p2) (heap ?p2)\<rparr>
           else ?p2)\<lparr>calls := calls ?p2 @ cs\<rparr>"
    and cs: "if subchannel_list p' \<noteq> Some ?new then cs = []
             else report_state rnd l' ?st = Inr cs"
    by blast
  have "swap_condition ?new l' ?p2 = Inr True"
    using none by (simp add: swap_condition_def)
  with s have swap: "swap" by simp
  have h2: "heap ?p2 = (Orphan (latest_pending_subchannel_list p) (heap p))(?new \<mapsto> l')"
    using h1 by simp
  have p'': "p' = p\<lparr>subchannel_list := Some ?new,
            latest_pending_subchannel_list := None,
            heap := (Orphan (latest_pending_subchannel_list p) (heap p))(?new \<mapsto> l'),
            next_ptr := ?new + 1,
            calls := calls p @ StartWatching_watch_loop (subchannel_data l') @ cs\<rparr>"
    using p' swap none h2 by (simp add: Orphan_def)
  then have "subchannel_list p' = Some ?new" by simp
  with cs have "report_state rnd l' ?st = Inr cs" by simp
  with cl p'' show ?thesis by blast
qed

text \<open>
  Claim C8. Let an Update arrive at a well-formed policy with no active list and return.
  The new list is the active list afterwards. With a successful address result, if the
  aggregation evaluates to TRANSIENT_FAILURE (no READY, no CONNECTING, every entry in
  TRANSIENT_FAILURE) the helper receives, after the calls that start the watches, the
  status \<open>UnavailableError\<close> whose message is ``empty address list: '' followed by the
  resolution note, and for an empty address list this report is the only call. With a
  resolver failure the helper receives TRANSIENT_FAILURE with the resolver's own status,
  in the report and in the fail-fast picker.
\<close>

theorem transient_failure_status:
  assumes wf: "well_formed p" and none: "subchannel_list p = None"
    and r: "UpdateLocked create chk rnd args p = Inr p'"
  shows "\<exists>l'. heap p' (next_ptr p) = Some l' \<and> subchannel_list p' = Some (next_ptr p) \<and>
     (\<forall>a. addresses args = StatusOr_value a \<longrightarrow>
        (num_ready l' = 0 \<and> num_connecting l' = 0 \<and>
         num_transient_failure l' = num_subchannels l' \<longrightarrow>
           calls p' = calls p @ StartWatching_watch_loop (subchannel_data l') @
             [UpdateState GRPC_CHANNEL_TRANSIENT_FAILURE
                (UnavailableError (''empty address list: '' @ resolution_note args))
                (TransientFailurePicker
                   (UnavailableError (''empty address list: '' @ resolution_note args)))]) \<and>
        (a = [] \<longrightarrow>
           calls p' = calls p @
             [UpdateState GRPC_CHANNEL_TRANSIENT_FAILURE
                (UnavailableError (''empty address list: '' @ resolution_note args))
                (TransientFailurePicker
                   (UnavailableError (''empty address list: '' @ resolution_note args)))])) \<and>
     (\<forall>s. addresses args = StatusOr_status s \<longrightarrow>
        calls p' = calls p @
          [UpdateState GRPC_CHANNEL_TRANSIENT_FAILURE s (TransientFailurePicker s)])"
proof -
  let ?addrs = "case addresses args of StatusOr_value a \<Rightarrow> a | StatusOr_status s \<Rightarrow> []"
  let ?st = "case addresses args of
          StatusOr_value a \<Rightarrow> UnavailableError (''empty address list: '' @ resolution_note args)
        | StatusOr_status s \<Rightarrow> s"
  let ?l0 = "RoundRobinSubchannelList_ctor create ?addrs"
  from Update_without_active [OF wf none r] obtain l' cs where
    cl: "StartWatching_check_loop chk [0..<num_subchannels ?l0] ?l0 = Inr l'"
    and rep: "report_state rnd l' ?st = Inr cs"
    and p': "p' = p\<lparr>subchannel_list := Some (next_ptr p),
            latest_pending_subchannel_list := None,
            heap := (Orphan (latest_pending_subchannel_list p) (heap p))(next_ptr p \<mapsto> l'),
            next_ptr := next_ptr p + 1,
            calls := calls p @ StartWatching_watch_loop (subchannel_data l') @ cs\<rparr>"
    by blast
  have c: "calls p' = calls p @ StartWatching_watch_loop (subchannel_data l') @ cs"
    using p' by simp
  have tf: "num_ready l' = 0 \<and> num_connecting l' = 0 \<and>
         num_transient_failure l' = num_subchannels l' \<Longrightarrow>
         cs = [UpdateState GRPC_CHANNEL_TRANSIENT_FAILURE ?st (TransientFailurePicker ?st)]"
    using rep by (simp add: report_state_def)
  have empty: "?addrs = [] \<Longrightarrow>
      calls p' = calls p @ [UpdateState GRPC_CHANNEL_TRANSIENT_FAILURE ?st (TransientFailurePicker ?st)]"
  proof -
    assume e: "?addrs = []"
    with cl check_loop_empty_list [of chk create]
    have l': "l' = RoundRobinSubchannelList_ctor create []" by simp
    then have "num_ready l' = 0 \<and> num_connecting l' = 0 \<and>
         num_transient_failure l' = num_subchannels l'" "subchannel_data l' = []"
      by (simp_all add: RoundRobinSubchannelList_ctor_def num_subchannels_def)
    with tf c show ?thesis by simp
  qed
  have "heap p' (next_ptr p) = Some l'" "subchannel_list p' = Some (next_ptr p)"
    using p' by simp_all
  moreover have "\<forall>a. addresses args = StatusOr_value a \<longrightarrow>
        (num_ready l' = 0 \<and> num_connecting l' = 0 \<and>
         num_transient_failure l' = num_subchannels l' \<longrightarrow>
           calls p' = calls p @ StartWatching_watch_loop (subchannel_data l') @
             [UpdateState GRPC_CHANNEL_TRANSIENT_FAILURE
                (UnavailableError (''empty address list: '' @ resolution_note args))
                (TransientFailurePicker
                   (UnavailableError (''empty address list: '' @ resolution_note args)))]) \<and>
        (a = [] \<longrightarrow>
           calls p' = calls p @
             [UpdateState GRPC_CHANNEL_TRANSIENT_FAILURE
                (UnavailableError (''empty address list: '' @ resolution_note args))
                (TransientFailurePicker
                   (UnavailableError (''empty address list: '' @ resolution_note args)))])"
    using tf c empty by auto
  moreover have "\<forall>s. addresses args = StatusOr_status s \<longrightarrow>
        calls p' = calls p @
          [UpdateState GRPC_CHANNEL_TRANSIENT_FAILURE s (TransientFailurePicker s)]"
    using empty by auto
  ultimately show ?thesis by blast
qed

lemma well_formed_ctor: "well_formed RoundRobin_ctor"
  by (simp add: well_formed_def RoundRobin_ctor_def)

lemma Update_failure_on_new_policy:
  "UpdateLocked example_CreateSubchannel example_all_idle 0
     \<lparr>addresses = StatusOr_status (OtherStatus 14 ''DNS resolution failed''),
      resolution_note = ''note''\<rparr> RoundRobin_ctor =
   Inr \<lparr>subchannel_list = Some 0, latest_pending_subchannel_list = None, shutdown = False,
        heap = [0 \<mapsto> \<lparr>subchannel_data = [], num_ready = 0, num_connecting = 0,
                        num_transient_failure = 0\<rparr>],
        next_ptr = 1,
        calls = [UpdateState GRPC_CHANNEL_TRANSIENT_FAILURE
                   (OtherStatus 14 ''DNS resolution failed'')
                   (TransientFailurePicker (OtherStatus 14 ''DNS resolution failed''))]\<rparr>"
  by (simp add: UpdateLocked_def StartWatchingLocked_def
        MaybeUpdateRoundRobinConnectivityStateLocked_def swap_condition_def report_state_def
        RoundRobinSubchannelList_ctor_def RoundRobin_ctor_def Orphan_def num_subchannels_def
        Let_def)

theorem transient_failure_status_witness:
  "well_formed RoundRobin_ctor \<and> subchannel_list RoundRobin_ctor = None \<and>
   (\<exists>p'. UpdateLocked example_CreateSubchannel example_all_idle 0
           \<lparr>addresses = StatusOr_status (OtherStatus 14 ''DNS resolution failed''),
            resolution_note = ''note''\<rparr> RoundRobin_ctor = Inr p' \<and>
         calls p' = [UpdateState GRPC_CHANNEL_TRANSIENT_FAILURE
                   (OtherStatus 14 ''DNS resolution failed'')
                   (TransientFailurePicker (OtherStatus 14 ''DNS resolution failed''))])"
proof -
  have none: "subchannel_list RoundRobin_ctor = None"
    by (simp add: RoundRobin_ctor_def)
  from transient_failure_status [OF well_formed_ctor none Update_failure_on_new_policy]
  have "calls \<lparr>subchannel_list = Some 0, latest_pending_subchannel_list = None, shutdown = False,
        heap = [0 \<mapsto> \<lparr>subchannel_data = [], num_ready = 0, num_connecting = 0,
                        num_transient_failure = 0\<rparr>],
        next_ptr = 1,
        calls = [UpdateState GRPC_CHANNEL_TRANSIENT_FAILURE
                   (OtherStatus 14 ''DNS resolution failed'')
                   (TransientFailurePicker (OtherStatus 14 ''DNS resolution failed''))]\<rparr> =
     calls RoundRobin_ctor @ [UpdateState GRPC_CHANNEL_TRANSIENT_FAILURE
                   (OtherStatus 14 ''DNS resolution failed'')
                   (TransientFailurePicker (OtherStatus 14 ''DNS resolution failed''))]"
    by simp
  with well_formed_ctor none Update_failure_on_new_policy show ?thesis
    by (simp add: RoundRobin_ctor_def)
qed

lemma well_formed_Shutdown: "well_formed (ShutdownLocked p)"
  by (simp add: well_formed_def ShutdownLocked_def)

text \<open>
  Claim C9, as amended. After Shutdown, a second Shutdown changes nothing. An Update is
  not guarded by the shutdown flag: whenever it returns, it has created a new list and made
  it the active list, and the flag is still set.
\<close>

theorem control_calls_after_Shutdown:
  "ShutdownLocked (ShutdownLocked p) = ShutdownLocked p \<and>
   (\<forall>p'. UpdateLocked create chk rnd args (ShutdownLocked p) = Inr p' \<longrightarrow>
      shutdown p' \<and> subchannel_list p' = Some (next_ptr p) \<and>
      latest_pending_subchannel_list p' = None \<and> heap p' (next_ptr p) \<noteq> None)"
proof -
  have idem: "ShutdownLocked (ShutdownLocked p) = ShutdownLocked p"
    by (simp add: ShutdownLocked_def Orphan_def)
  have none: "subchannel_list (ShutdownLocked p) = None"
    by (simp add: ShutdownLocked_def)
  have "shutdown p' \<and> subchannel_list p' = Some (next_ptr p) \<and>
      latest_pending_subchannel_list p' = None \<and> heap p' (next_ptr p) \<noteq> None"
    if r: "UpdateLocked create chk rnd args (ShutdownLocked p) = Inr p'" for p'
    using Update_without_active [OF well_formed_Shutdown none r]
    by (auto simp add: ShutdownLocked_def)
  with idem show ?thesis by blast
qed

theorem control_calls_after_Shutdown_witness:
  "\<exists>p'. UpdateLocked example_CreateSubchannel example_all_idle 0
           \<lparr>addresses = StatusOr_value [], resolution_note = ''no backends''\<rparr>
           (ShutdownLocked example_policy) = Inr p' \<and>
         shutdown p' \<and> subchannel_list p' = Some 5"
proof -
  have r: "UpdateLocked example_CreateSubchannel example_all_idle 0
           \<lparr>addresses = StatusOr_value [], resolution_note = ''no backends''\<rparr>
           (ShutdownLocked example_policy) =
     Inr \<lparr>subchannel_list = Some 5, latest_pending_subchannel_list = None, shutdown = True,
          heap = [5 \<mapsto> \<lparr>subchannel_data = [], num_ready = 0, num_connecting = 0,
                        num_transient_failure = 0\<rparr>],
          next_ptr = 6,
          calls = [UpdateState GRPC_CHANNEL_TRANSIENT_FAILURE
                     (UnavailableError ''empty address list: no backends'')
                     (TransientFailurePicker (UnavailableError ''empty address list: no backends''))]\<rparr>"
    by (auto simp add: UpdateLocked_def StartWatchingLocked_def ShutdownLocked_def
        MaybeUpdateRoundRobinConnectivityStateLocked_def swap_condition_def report_state_def
        RoundRobinSubchannelList_ctor_def example_policy_def Orphan_def num_subchannels_def
        Let_def)
  from control_calls_after_Shutdown [of example_policy example_CreateSubchannel example_all_idle 0
      "\<lparr>addresses = StatusOr_value [], resolution_note = ''no backends''\<rparr>", THEN conjunct2] r
  show ?thesis
    by (simp add: example_policy_def)
qed

text \<open>
  Claim C9 as stated fails: on a policy that has been shut down, an Update with an empty
  address list creates a list, makes it the active list and reports TRANSIENT_FAILURE to
  the helper; the state is not the one Shutdown left.
\<close>

theorem Update_after_Shutdown_counterexample:
  "UpdateLocked example_CreateSubchannel example_all_idle 0
     \<lparr>addresses = StatusOr_value [], resolution_note = ''note''\<rparr> (ShutdownLocked RoundRobin_ctor) =
   Inr \<lparr>subchannel_list = Some 0, latest_pending_subchannel_list = None, shutdown = True,
        heap = [0 \<mapsto> \<lparr>subchannel_data = [], num_ready = 0, num_connecting = 0,
                        num_transient_failure = 0\<rparr>],
        next_ptr = 1,
        calls = [UpdateState GRPC_CHANNEL_TRANSIENT_FAILURE
                   (UnavailableError ''empty address list: note'')
                   (TransientFailurePicker (UnavailableError ''empty address list: note''))]\<rparr> \<and>
   UpdateLocked example_CreateSubchannel example_all_idle 0
     \<lparr>addresses = StatusOr_value [], resolution_note = ''note''\<rparr> (ShutdownLocked RoundRobin_ctor) \<noteq>
   Inr (ShutdownLocked RoundRobin_ctor)"
  by (simp add: UpdateLocked_def StartWatchingLocked_def ShutdownLocked_def
        MaybeUpdateRoundRobinConnectivityStateLocked_def swap_condition_def report_state_def
        RoundRobinSubchannelList_ctor_def RoundRobin_ctor_def Orphan_def num_subchannels_def
        Let_def)

lemma ResetBackoff_after_Shutdown:
  "ResetBackoffLocked (ShutdownLocked p) = Inl NullDereference"
  by (simp add: ResetBackoffLocked_def ShutdownLocked_def)

section \<open>Notifications and the counter invariant\<close>

lemma UpdateLogical_handles:
  assumes "UpdateLogicalConnectivityStateLocked i raw l = Inr (b, l')"
  shows "map subchannel (subchannel_data l') = map subchannel (subchannel_data l)"
proof (cases b)
  case False
  with UpdateLogical_cases [OF assms] show ?thesis by simp
next
  case True
  with UpdateLogical_cases [OF assms] obtain lc where
    "i < num_subchannels l"
    "l' = lc\<lparr>subchannel_data :=
            (subchannel_data l)
              [i := (subchannel_data l ! i)\<lparr>logical_connectivity_state :=
                 (if raw = GRPC_CHANNEL_IDLE then GRPC_CHANNEL_CONNECTING else raw)\<rparr>]\<rparr>"
    by auto
  then show ?thesis
    by (simp add: num_subchannels_def map_update list_update_same_conv)
qed

lemma check_loop_handles:
  "StartWatching_check_loop chk is l = Inr l' \<Longrightarrow>
   map subchannel (subchannel_data l') = map subchannel (subchannel_data l)"
proof (induction "is" arbitrary: l)
  case Nil
  then show ?case by simp
next
  case (Cons i "is")
  show ?case
  proof (cases "chk i = GRPC_CHANNEL_IDLE")
    case True
    with Cons show ?thesis by simp
  next
    case False
    with Cons.prems obtain b l1 where
      u: "UpdateLogicalConnectivityStateLocked i (chk i) l = Inr (b, l1)"
      and r: "StartWatching_check_loop chk is l1 = Inr l'"
      by (auto simp add: Let_def split: sum.splits)
    from Cons.IH [OF r] UpdateLogical_handles [OF u] show ?thesis by simp
  qed
qed

lemma check_loop_consistent:
  "counters_consistent l \<Longrightarrow> StartWatching_check_loop chk is l = Inr l' \<Longrightarrow>
   counters_consistent l'"
proof (induction "is" arbitrary: l)
  case Nil
  then show ?case by simp
next
  case (Cons i "is")
  show ?case
  proof (cases "chk i = GRPC_CHANNEL_IDLE")
    case True
    with Cons show ?thesis by simp
  next
    case False
    with Cons.prems obtain b l1 where
      u: "UpdateLogicalConnectivityStateLocked i (chk i) l = Inr (b, l1)"
      and r: "StartWatching_check_loop chk is l1 = Inr l'"
      by (auto simp add: Let_def split: sum.splits)
    from UpdateLogical_consistent [OF Cons.prems(1) u] have "counters_consistent l1" by simp
    from Cons.IH [OF this r] show ?thesis .
  qed
qed

lemma watch_loop_handles:
  "StartWatching_watch_loop xs =
   concat (map (\<lambda>sd. case subchannel sd of
                        None \<Rightarrow> []
                      | Some sc \<Rightarrow> [StartConnectivityWatchLocked sc, RequestConnection sc]) xs)"
  by (induction xs) (auto split: option.splits)

lemma watch_loop_cong:
  assumes "map subchannel xs = map subchannel ys"
  shows "StartWatching_watch_loop xs = StartWatching_watch_loop ys"
proof -
  have "StartWatching_watch_loop zs =
        concat (map (\<lambda>h. case h of
                        None \<Rightarrow> []
                      | Some sc \<Rightarrow> [StartConnectivityWatchLocked sc, RequestConnection sc])
                  (map subchannel zs))" for zs
    by (simp add: watch_loop_handles comp_def)
  then show ?thesis using assms by (simp only:)
qed

lemma watch_loop_no_reresolution:
  "RequestReresolution \<notin> set (StartWatching_watch_loop xs)"
  by (induction xs) (auto split: option.splits)

lemma StartWatching_calls:
  assumes "heap p0 q = Some m" and "StartWatchingLocked chk rnd q st p0 = Inr p1"
  shows "\<exists>cs. calls p1 = calls p0 @ StartWatching_watch_loop (subchannel_data m) @ cs \<and>
              (\<forall>c\<in>set cs. \<exists>s st' pk. c = UpdateState s st' pk)"
proof -
  from StartWatching_Inr [OF assms(2,1)] obtain l' where
    cl: "StartWatching_check_loop chk [0..<num_subchannels m] m = Inr l'"
    and mu: "MaybeUpdateRoundRobinConnectivityStateLocked rnd q st
       (p0\<lparr>heap := (heap p0)(q \<mapsto> l'),
          calls := calls p0 @ StartWatching_watch_loop (subchannel_data l')\<rparr>) = Inr p1"
    by blast
  have w: "StartWatching_watch_loop (subchannel_data l') = StartWatching_watch_loop (subchannel_data m)"
    using check_loop_handles [OF cl] by (rule watch_loop_cong)
  have "heap (p0\<lparr>heap := (heap p0)(q \<mapsto> l'),
          calls := calls p0 @ StartWatching_watch_loop (subchannel_data l')\<rparr>) q = Some l'"
    by simp
  from MaybeUpdate_effects [OF mu this] w show ?thesis by auto
qed

lemma Process_Inr:
  assumes "ProcessConnectivityChangeLocked rnd this i raw p = Inr p'"
    and "heap p this = Some l"
  shows "\<exists>sc changed l'.
     i < num_subchannels l \<and> subchannel (subchannel_data l ! i) = Some sc \<and>
     UpdateLogicalConnectivityStateLocked i raw l = Inr (changed, l') \<and>
     (if changed then
        MaybeUpdateRoundRobinConnectivityStateLocked rnd this
          (UnavailableError ''connections to all backends failing'')
          (p\<lparr>calls := calls p @
                (if raw = GRPC_CHANNEL_TRANSIENT_FAILURE \<or> raw = GRPC_CHANNEL_IDLE
                 then [RequestReresolution, RequestConnection sc] else []),
             heap := (heap p)(this \<mapsto> l')\<rparr>) = Inr p'
      else
        p' = p\<lparr>calls := calls p @
                (if raw = GRPC_CHANNEL_TRANSIENT_FAILURE \<or> raw = GRPC_CHANNEL_IDLE
                 then [RequestReresolution, RequestConnection sc] else []),
             heap := (heap p)(this \<mapsto> l')\<rparr>)"
proof -
  from assms have i: "i < num_subchannels l"
    by (auto simp add: ProcessConnectivityChangeLocked_def split: if_splits)
  with assms obtain sc where sc: "subchannel (subchannel_data l ! i) = Some sc"
    by (auto simp add: ProcessConnectivityChangeLocked_def split: option.splits)
  let ?rq = "if raw = GRPC_CHANNEL_TRANSIENT_FAILURE \<or> raw = GRPC_CHANNEL_IDLE
             then [RequestReresolution, RequestConnection sc] else []"
  let ?p2 = "\<lambda>l'. p\<lparr>calls := calls p @ ?rq, heap := (heap p)(this \<mapsto> l')\<rparr>"
  show ?thesis
  proof (cases "UpdateLogicalConnectivityStateLocked i raw l")
    case (Inl e)
    with assms i sc have False
      by (simp add: ProcessConnectivityChangeLocked_def Let_def)
    then show ?thesis ..
  next
    case (Inr bl)
    obtain changed l' where bl: "bl = (changed, l')" by (cases bl)
    have u: "UpdateLogicalConnectivityStateLocked i raw l = Inr (changed, l')"
      using Inr bl by simp
    have e: "ProcessConnectivityChangeLocked rnd this i raw p =
       (if changed then
          MaybeUpdateRoundRobinConnectivityStateLocked rnd this
            (UnavailableError ''connections to all backends failing'') (?p2 l')
        else Inr (?p2 l'))"
      using assms(2) i sc u
      by (simp add: ProcessConnectivityChangeLocked_def Let_def)
    have "if changed then
          MaybeUpdateRoundRobinConnectivityStateLocked rnd this
            (UnavailableError ''connections to all backends failing'') (?p2 l') = Inr p'
        else p' = ?p2 l'"
      using assms(1) unfolding e by (cases changed) auto
    with i sc u show ?thesis by blast
  qed
qed

text \<open>
  Claim C7. For an entry that has a subchannel (as every watched entry has), a returning
  notification of TRANSIENT_FAILURE or IDLE makes exactly these calls: one
  \<^verbatim>\<open>RequestReresolution\<close> to the helper, one \<^verbatim>\<open>RequestConnection\<close> on the entry's
  subchannel, and after them only state reports, whether or not the logical state changed;
  a notification of any other state makes only state reports. The start-up of a list
  never requests re-resolution: besides state reports it makes the calls of its second
  loop, one watch and one connection request per entry with a handle, which are fixed by
  the handles alone and do not depend on the polled states.
\<close>

theorem reresolution_on_every_notification:
  "(heap p this = Some l \<and> i < num_subchannels l \<and>
    subchannel (subchannel_data l ! i) = Some sc \<and>
    ProcessConnectivityChangeLocked rnd this i raw p = Inr p' \<longrightarrow>
      (\<exists>cs. calls p' =
              calls p @
              (if raw = GRPC_CHANNEL_TRANSIENT_FAILURE \<or> raw = GRPC_CHANNEL_IDLE
               then [RequestReresolution, RequestConnection sc] else []) @ cs \<and>
            (\<forall>c\<in>set cs. \<exists>s st pk. c = UpdateState s st pk))) \<and>
   (heap p0 q = Some m \<and> StartWatchingLocked chk rnd0 q st0 p0 = Inr p1 \<longrightarrow>
      (\<exists>cs. calls p1 = calls p0 @ StartWatching_watch_loop (subchannel_data m) @ cs \<and>
            (\<forall>c\<in>set cs. \<exists>s st pk. c = UpdateState s st pk)) \<and>
      RequestReresolution \<notin> set (StartWatching_watch_loop (subchannel_data m)) \<and>
      StartWatching_watch_loop (subchannel_data m) =
        concat (map (\<lambda>sd. case subchannel sd of
                             None \<Rightarrow> []
                           | Some sc \<Rightarrow> [StartConnectivityWatchLocked sc, RequestConnection sc])
                  (subchannel_data m)))"
proof -
  have notif: "\<exists>cs. calls p' =
              calls p @
              (if raw = GRPC_CHANNEL_TRANSIENT_FAILURE \<or> raw = GRPC_CHANNEL_IDLE
               then [RequestReresolution, RequestConnection sc] else []) @ cs \<and>
            (\<forall>c\<in>set cs. \<exists>s st pk. c = UpdateState s st pk)"
    if l: "heap p this = Some l" and sc: "subchannel (subchannel_data l ! i) = Some sc"
      and r: "ProcessConnectivityChangeLocked rnd this i raw p = Inr p'"
  proof -
    let ?rq = "if raw = GRPC_CHANNEL_TRANSIENT_FAILURE \<or> raw = GRPC_CHANNEL_IDLE
               then [RequestReresolution, RequestConnection sc] else []"
    from Process_Inr [OF r l] sc obtain changed l' where
      res: "if changed then
        MaybeUpdateRoundRobinConnectivityStateLocked rnd this
          (UnavailableError ''connections to all backends failing'')
          (p\<lparr>calls := calls p @ ?rq, heap := (heap p)(this \<mapsto> l')\<rparr>) = Inr p'
      else
        p' = p\<lparr>calls := calls p @ ?rq, heap := (heap p)(this \<mapsto> l')\<rparr>"
      by auto
    show ?thesis
    proof (cases changed)
      case False
      with res have "calls p' = calls p @ ?rq @ []" by simp
      then show ?thesis by (intro exI [of _ "[]"]) simp
    next
      case True
      with res have mu: "MaybeUpdateRoundRobinConnectivityStateLocked rnd this
          (UnavailableError ''connections to all backends failing'')
          (p\<lparr>calls := calls p @ ?rq, heap := (heap p)(this \<mapsto> l')\<rparr>) = Inr p'"
        by simp
      have h: "heap (p\<lparr>calls := calls p @ ?rq, heap := (heap p)(this \<mapsto> l')\<rparr>) this = Some l'"
        by simp
      from MaybeUpdate_effects [OF mu h] obtain cs where
        "calls p' = (calls p @ ?rq) @ cs" "\<forall>c\<in>set cs. \<exists>s st pk. c = UpdateState s st pk"
        by auto
      then show ?thesis by (intro exI [of _ cs]) simp
    qed
  qed
  have start: "(\<exists>cs. calls p1 = calls p0 @ StartWatching_watch_loop (subchannel_data m) @ cs \<and>
            (\<forall>c\<in>set cs. \<exists>s st pk. c = UpdateState s st pk))"
    if "heap p0 q = Some m" and "StartWatchingLocked chk rnd0 q st0 p0 = Inr p1"
    using StartWatching_calls [OF that] .
  from notif start watch_loop_no_reresolution [of "subchannel_data m"]
    watch_loop_handles [of "subchannel_data m"]
  show ?thesis by blast
qed

lemma example_notification:
  "ProcessConnectivityChangeLocked 4 3 0 GRPC_CHANNEL_TRANSIENT_FAILURE example_policy =
     Inr \<lparr>subchannel_list = Some 3, latest_pending_subchannel_list = Some 4, shutdown = False,
          heap = [3 \<mapsto> \<lparr>subchannel_data =
                           [\<lparr>subchannel = Some 7,
                             logical_connectivity_state = GRPC_CHANNEL_TRANSIENT_FAILURE\<rparr>],
                         num_ready = 0, num_connecting = 0, num_transient_failure = 1\<rparr>,
                  4 \<mapsto> example_pending],
          next_ptr = 5,
          calls = [RequestReresolution, RequestConnection 7,
                   UpdateState GRPC_CHANNEL_TRANSIENT_FAILURE
                     (UnavailableError ''connections to all backends failing'')
                     (TransientFailurePicker
                        (UnavailableError ''connections to all backends failing''))]\<rparr>"
proof -
  have u: "UpdateLogicalConnectivityStateLocked 0 GRPC_CHANNEL_TRANSIENT_FAILURE example_active =
      Inr (True, \<lparr>subchannel_data =
                           [\<lparr>subchannel = Some 7,
                             logical_connectivity_state = GRPC_CHANNEL_TRANSIENT_FAILURE\<rparr>],
                         num_ready = 0, num_connecting = 0, num_transient_failure = 1\<rparr>)"
    by (simp add: UpdateLogicalConnectivityStateLocked_def UpdateStateCountersLocked_def
          example_active_def num_subchannels_def size_t_incr_def SIZE_MAX_def)
  have a: "heap example_policy 3 = Some example_active"
      "num_subchannels example_active = 1"
      "subchannel (subchannel_data example_active ! 0) = Some 7"
    by (simp_all add: example_policy_def example_active_def num_subchannels_def)
  have h: "[3 \<mapsto> example_active, 4 \<mapsto> example_pending](3 \<mapsto> x) =
           [(3::nat) \<mapsto> x, 4 \<mapsto> example_pending]" for x
    by (rule ext) simp
  show ?thesis
    unfolding ProcessConnectivityChangeLocked_def
    by (simp add: a u Let_def)
       (simp add: MaybeUpdateRoundRobinConnectivityStateLocked_def swap_condition_def
          report_state_def example_policy_def num_subchannels_def Let_def h)
qed

theorem reresolution_on_every_notification_witness:
  "\<exists>p'. ProcessConnectivityChangeLocked 4 3 0 GRPC_CHANNEL_TRANSIENT_FAILURE example_policy = Inr p' \<and>
      calls p' = [RequestReresolution, RequestConnection 7,
                   UpdateState GRPC_CHANNEL_TRANSIENT_FAILURE
                     (UnavailableError ''connections to all backends failing'')
                     (TransientFailurePicker
                        (UnavailableError ''connections to all backends failing''))]"
proof -
  have a: "heap example_policy 3 = Some example_active"
      "0 < num_subchannels example_active"
      "subchannel (subchannel_data example_active ! 0) = Some 7"
    by (simp_all add: example_policy_def example_active_def num_subchannels_def)
  from reresolution_on_every_notification [THEN conjunct1, rule_format,
      OF conjI [OF a(1) conjI [OF a(2) conjI [OF a(3) example_notification]]]]
  obtain cs where "calls \<lparr>subchannel_list = Some 3, latest_pending_subchannel_list = Some 4,
          shutdown = False,
          heap = [3 \<mapsto> \<lparr>subchannel_data =
                           [\<lparr>subchannel = Some 7,
                             logical_connectivity_state = GRPC_CHANNEL_TRANSIENT_FAILURE\<rparr>],
                         num_ready = 0, num_connecting = 0, num_transient_failure = 1\<rparr>,
                  4 \<mapsto> example_pending],
          next_ptr = 5,
          calls = [RequestReresolution, RequestConnection 7,
                   UpdateState GRPC_CHANNEL_TRANSIENT_FAILURE
                     (UnavailableError ''connections to all backends failing'')
                     (TransientFailurePicker
                        (UnavailableError ''connections to all backends failing''))]\<rparr> =
       calls example_policy @ [RequestReresolution, RequestConnection 7] @ cs"
    by auto
  with example_notification show ?thesis by simp
qed

lemma ctor_consistent:
  "length addrs \<le> SIZE_MAX \<Longrightarrow>
   counters_consistent (RoundRobinSubchannelList_ctor create addrs)"
  by (simp add: counters_consistent_def count_state_def RoundRobinSubchannelList_ctor_def
        num_subchannels_def filter_map comp_def)

lemma heap_consistent_ctor: "heap_consistent RoundRobin_ctor"
  by (simp add: heap_consistent_def RoundRobin_ctor_def)

lemma heap_consistent_MaybeUpdate:
  assumes "heap_consistent p"
    and "MaybeUpdateRoundRobinConnectivityStateLocked rnd this st p = Inr p'"
  shows "heap_consistent p'"
proof -
  from assms(2) obtain l where "heap p this = Some l"
    by (auto simp add: MaybeUpdateRoundRobinConnectivityStateLocked_def split: option.splits)
  from MaybeUpdate_effects [OF assms(2) this]
  have "\<forall>q m. heap p' q = Some m \<longrightarrow> heap p q = Some m" by simp
  with assms(1) show ?thesis
    unfolding heap_consistent_def by blast
qed

lemma heap_consistent_update:
  "heap_consistent p \<Longrightarrow> counters_consistent l' \<Longrightarrow>
   heap_consistent (p\<lparr>heap := (heap p)(this \<mapsto> l'), calls := cs\<rparr>)"
  by (simp add: heap_consistent_def)

lemma heap_consistent_StartWatching:
  assumes "heap_consistent p" and "StartWatchingLocked chk rnd this st p = Inr p'"
  shows "heap_consistent p'"
proof -
  from assms(2) obtain l where l: "heap p this = Some l"
    by (auto simp add: StartWatchingLocked_def split: option.splits)
  with assms(1) have cc: "counters_consistent l"
    unfolding heap_consistent_def by blast
  from StartWatching_Inr [OF assms(2) l] obtain l' where
    cl: "StartWatching_check_loop chk [0..<num_subchannels l] l = Inr l'"
    and mu: "MaybeUpdateRoundRobinConnectivityStateLocked rnd this st
       (p\<lparr>heap := (heap p)(this \<mapsto> l'),
          calls := calls p @ StartWatching_watch_loop (subchannel_data l')\<rparr>) = Inr p'"
    by blast
  from check_loop_consistent [OF cc cl] have "counters_consistent l'" .
  from heap_consistent_update [OF assms(1) this]
  have "heap_consistent (p\<lparr>heap := (heap p)(this \<mapsto> l'),
          calls := calls p @ StartWatching_watch_loop (subchannel_data l')\<rparr>)" .
  from heap_consistent_MaybeUpdate [OF this mu] show ?thesis .
qed

lemma heap_consistent_Process:
  assumes "heap_consistent p" and "ProcessConnectivityChangeLocked rnd this i raw p = Inr p'"
  shows "heap_consistent p'"
proof -
  from assms(2) obtain l where l: "heap p this = Some l"
    by (auto simp add: ProcessConnectivityChangeLocked_def split: option.splits)
  with assms(1) have cc: "counters_consistent l"
    unfolding heap_consistent_def by blast
  from Process_Inr [OF assms(2) l] obtain sc changed l' where
    u: "UpdateLogicalConnectivityStateLocked i raw l = Inr (changed, l')"
    and res: "if changed then
        MaybeUpdateRoundRobinConnectivityStateLocked rnd this
          (UnavailableError ''connections to all backends failing'')
          (p\<lparr>calls := calls p @
                (if raw = GRPC_CHANNEL_TRANSIENT_FAILURE \<or> raw = GRPC_CHANNEL_IDLE
                 then [RequestReresolution, RequestConnection sc] else []),
             heap := (heap p)(this \<mapsto> l')\<rparr>) = Inr p'
      else
        p' = p\<lparr>calls := calls p @
                (if raw = GRPC_CHANNEL_TRANSIENT_FAILURE \<or> raw = GRPC_CHANNEL_IDLE
                 then [RequestReresolution, RequestConnection sc] else []),
             heap := (heap p)(this \<mapsto> l')\<rparr>"
    by blast
  from UpdateLogical_consistent [OF cc u] have "counters_consistent l'" by simp
  then have hc: "heap_consistent (p\<lparr>calls := calls p @
                (if raw = GRPC_CHANNEL_TRANSIENT_FAILURE \<or> raw = GRPC_CHANNEL_IDLE
                 then [RequestReresolution, RequestConnection sc] else []),
             heap := (heap p)(this \<mapsto> l')\<rparr>)"
    using assms(1) by (simp add: heap_consistent_def)
  show ?thesis
  proof (cases changed)
    case True
    with res heap_consistent_MaybeUpdate [OF hc] show ?thesis by simp
  next
    case False
    with res hc show ?thesis by simp
  qed
qed

lemma heap_consistent_Update:
  assumes hc: "heap_consistent p"
    and len: "\<forall>a. addresses args = StatusOr_value a \<longrightarrow> length a \<le> SIZE_MAX"
    and r: "UpdateLocked create chk rnd args p = Inr p'"
  shows "heap_consistent p'"
proof (cases "subchannel_list p = None \<or> (\<exists>a. addresses args = StatusOr_value a)")
  case False
  then have "UpdateLocked create chk rnd args p = Inr p"
    by (cases "addresses args") (auto simp add: UpdateLocked_def)
  with r hc show ?thesis by simp
next
  case True
  let ?addrs = "case addresses args of StatusOr_value a \<Rightarrow> a | StatusOr_status s \<Rightarrow> []"
  let ?p1 = "p\<lparr>heap := Orphan (latest_pending_subchannel_list p)
                     ((heap p)(next_ptr p \<mapsto> RoundRobinSubchannelList_ctor create ?addrs)),
              latest_pending_subchannel_list := Some (next_ptr p),
              next_ptr := next_ptr p + 1\<rparr>"
  have "length ?addrs \<le> SIZE_MAX"
    using len by (cases "addresses args") simp_all
  then have "counters_consistent (RoundRobinSubchannelList_ctor create ?addrs)"
    by (rule ctor_consistent)
  with hc have "heap_consistent ?p1"
    by (auto simp add: heap_consistent_def Orphan_def split: option.splits if_splits)
  from heap_consistent_StartWatching [OF this UpdateLocked_Inr [OF r True]]
  show ?thesis .
qed

lemma heap_consistent_Shutdown: "heap_consistent p \<Longrightarrow> heap_consistent (ShutdownLocked p)"
  by (auto simp add: heap_consistent_def ShutdownLocked_def Orphan_def
      split: option.splits if_splits)

lemma heap_consistent_ResetBackoff:
  "heap_consistent p \<Longrightarrow> ResetBackoffLocked p = Inr p' \<Longrightarrow> heap_consistent p'"
  by (auto simp add: heap_consistent_def ResetBackoffLocked_def Let_def split: option.splits)

lemma length_filter_not_IDLE:
  "length (filter (\<lambda>sd. logical_connectivity_state sd \<noteq> GRPC_CHANNEL_IDLE) xs) =
   length (filter (\<lambda>sd. logical_connectivity_state sd = GRPC_CHANNEL_READY) xs) +
   length (filter (\<lambda>sd. logical_connectivity_state sd = GRPC_CHANNEL_CONNECTING) xs) +
   length (filter (\<lambda>sd. logical_connectivity_state sd = GRPC_CHANNEL_TRANSIENT_FAILURE) xs) +
   length (filter (\<lambda>sd. logical_connectivity_state sd = GRPC_CHANNEL_SHUTDOWN) xs)"
proof (induction xs)
  case Nil
  then show ?case by simp
next
  case (Cons x xs)
  then show ?case
    by (cases "logical_connectivity_state x") simp_all
qed

lemma consistent_sum:
  assumes "counters_consistent l"
  shows "num_ready l + num_connecting l + num_transient_failure l =
           length (filter (\<lambda>sd. logical_connectivity_state sd \<noteq> GRPC_CHANNEL_IDLE)
                     (subchannel_data l)) \<and>
         num_ready l + num_connecting l + num_transient_failure l \<le> num_subchannels l"
proof -
  have "num_ready l + num_connecting l + num_transient_failure l =
           length (filter (\<lambda>sd. logical_connectivity_state sd \<noteq> GRPC_CHANNEL_IDLE)
                     (subchannel_data l))"
    using assms length_filter_not_IDLE [of "subchannel_data l"]
    by (simp add: counters_consistent_def count_state_def)
  moreover have "length (filter (\<lambda>sd. logical_connectivity_state sd \<noteq> GRPC_CHANNEL_IDLE)
                     (subchannel_data l)) \<le> num_subchannels l"
    by (simp add: num_subchannels_def)
  ultimately show ?thesis by simp
qed

text \<open>
  Claim C5, as amended. Consistency of every list on the heap holds for a new policy and
  is kept by every operation that returns: Update (with it the start-up of the new list),
  the start-up itself, every notification, Shutdown and ResetBackoff. On a consistent list
  each counter is the number of entries in its logical state, so the three counters add up
  to the number of entries whose logical state is not the initial IDLE, which is at most
  the number of entries.
\<close>

theorem counters_count_entries:
  "heap_consistent RoundRobin_ctor \<and>
   (heap_consistent p \<and> (\<forall>a. addresses args = StatusOr_value a \<longrightarrow> length a \<le> SIZE_MAX) \<and>
    UpdateLocked create chk rnd args p = Inr p' \<longrightarrow> heap_consistent p') \<and>
   (heap_consistent p \<and> StartWatchingLocked chk rnd this st p = Inr p' \<longrightarrow> heap_consistent p') \<and>
   (heap_consistent p \<and> ProcessConnectivityChangeLocked rnd this i raw p = Inr p' \<longrightarrow>
      heap_consistent p') \<and>
   (heap_consistent p \<longrightarrow> heap_consistent (ShutdownLocked p)) \<and>
   (heap_consistent p \<and> ResetBackoffLocked p = Inr p' \<longrightarrow> heap_consistent p') \<and>
   (counters_consistent l \<longrightarrow>
      num_ready l = count_state GRPC_CHANNEL_READY l \<and>
      num_connecting l = count_state GRPC_CHANNEL_CONNECTING l \<and>
      num_transient_failure l = count_state GRPC_CHANNEL_TRANSIENT_FAILURE l \<and>
      num_ready l + num_connecting l + num_transient_failure l =
        length (filter (\<lambda>sd. logical_connectivity_state sd \<noteq> GRPC_CHANNEL_IDLE)
                  (subchannel_data l)) \<and>
      num_ready l + num_connecting l + num_transient_failure l \<le> num_subchannels l)"
  using heap_consistent_ctor heap_consistent_Update [of p args create chk rnd p']
    heap_consistent_StartWatching [of p chk rnd this st p']
    heap_consistent_Process [of p rnd this i raw p']
    heap_consistent_Shutdown [of p] heap_consistent_ResetBackoff [of p p']
    consistent_sum [of l]
  by (auto simp add: counters_consistent_def)

lemma Update_one_idle_address:
  "UpdateLocked example_CreateSubchannel example_all_idle 0
     \<lparr>addresses = StatusOr_value [5], resolution_note = ''note''\<rparr> RoundRobin_ctor =
   Inr \<lparr>subchannel_list = Some 0, latest_pending_subchannel_list = None, shutdown = False,
        heap = [0 \<mapsto> \<lparr>subchannel_data =
                         [\<lparr>subchannel = Some 5,
                           logical_connectivity_state = GRPC_CHANNEL_IDLE\<rparr>],
                       num_ready = 0, num_connecting = 0, num_transient_failure = 0\<rparr>],
        next_ptr = 1,
        calls = [StartConnectivityWatchLocked 5, RequestConnection 5]\<rparr>"
  by (simp add: UpdateLocked_def StartWatchingLocked_def
        MaybeUpdateRoundRobinConnectivityStateLocked_def swap_condition_def report_state_def
        RoundRobinSubchannelList_ctor_def RoundRobin_ctor_def Orphan_def num_subchannels_def
        example_CreateSubchannel_def example_all_idle_def Let_def)

theorem counters_count_entries_witness:
  "heap_consistent RoundRobin_ctor \<and>
   (\<exists>p'. UpdateLocked example_CreateSubchannel example_all_idle 0
           \<lparr>addresses = StatusOr_value [5], resolution_note = ''note''\<rparr> RoundRobin_ctor = Inr p' \<and>
         heap_consistent p')"
proof -
  have c: "heap_consistent RoundRobin_ctor"
    by (rule heap_consistent_ctor)
  have len: "\<forall>a. addresses \<lparr>addresses = StatusOr_value [5], resolution_note = ''note''\<rparr> =
      StatusOr_value a \<longrightarrow> length a \<le> SIZE_MAX"
    by (simp add: SIZE_MAX_def)
  from counters_count_entries [THEN conjunct2, THEN conjunct1, rule_format,
      OF conjI [OF c conjI [OF len Update_one_idle_address]]]
  have "heap_consistent \<lparr>subchannel_list = Some 0, latest_pending_subchannel_list = None,
        shutdown = False,
        heap = [0 \<mapsto> \<lparr>subchannel_data =
                         [\<lparr>subchannel = Some 5,
                           logical_connectivity_state = GRPC_CHANNEL_IDLE\<rparr>],
                       num_ready = 0, num_connecting = 0, num_transient_failure = 0\<rparr>],
        next_ptr = 1,
        calls = [StartConnectivityWatchLocked 5, RequestConnection 5]\<rparr>" .
  with c Update_one_idle_address show ?thesis by simp
qed

text \<open>
  Claim C5 as stated fails: when a new policy is updated with one address whose
  subchannel reports IDLE when polled, start-up completes with the entry still in the
  initial logical state IDLE and all three counters zero, while the list has one entry.
\<close>

theorem counters_after_StartWatching_counterexample:
  "UpdateLocked example_CreateSubchannel example_all_idle 0
     \<lparr>addresses = StatusOr_value [5], resolution_note = ''note''\<rparr> RoundRobin_ctor =
   Inr \<lparr>subchannel_list = Some 0, latest_pending_subchannel_list = None, shutdown = False,
        heap = [0 \<mapsto> \<lparr>subchannel_data =
                         [\<lparr>subchannel = Some 5,
                           logical_connectivity_state = GRPC_CHANNEL_IDLE\<rparr>],
                       num_ready = 0, num_connecting = 0, num_transient_failure = 0\<rparr>],
        next_ptr = 1,
        calls = [StartConnectivityWatchLocked 5, RequestConnection 5]\<rparr> \<and>
   num_ready \<lparr>subchannel_data =
                [\<lparr>subchannel = Some 5, logical_connectivity_state = GRPC_CHANNEL_IDLE\<rparr>],
              num_ready = 0, num_connecting = 0, num_transient_failure = 0\<rparr> +
   num_connecting \<lparr>subchannel_data =
                [\<lparr>subchannel = Some 5, logical_connectivity_state = GRPC_CHANNEL_IDLE\<rparr>],
              num_ready = 0, num_connecting = 0, num_transient_failure = 0\<rparr> +
   num_transient_failure \<lparr>subchannel_data =
                [\<lparr>subchannel = Some 5, logical_connectivity_state = GRPC_CHANNEL_IDLE\<rparr>],
              num_ready = 0, num_connecting = 0, num_transient_failure = 0\<rparr> \<noteq>
   num_subchannels \<lparr>subchannel_data =
                [\<lparr>subchannel = Some 5, logical_connectivity_state = GRPC_CHANNEL_IDLE\<rparr>],
              num_ready = 0, num_connecting = 0, num_transient_failure = 0\<rparr>"
  by (simp add: UpdateLocked_def StartWatchingLocked_def
        MaybeUpdateRoundRobinConnectivityStateLocked_def swap_condition_def report_state_def
        RoundRobinSubchannelList_ctor_def RoundRobin_ctor_def Orphan_def num_subchannels_def
        example_CreateSubchannel_def example_all_idle_def Let_def)

section \<open>Well-formedness is kept\<close>

text \<open>
  The policy is well formed when it is constructed (\<open>well_formed_ctor\<close>) and after Shutdown
  (\<open>well_formed_Shutdown\<close>), and every operation that returns keeps it so.
\<close>

lemma well_formed_MaybeUpdate:
  assumes wf: "well_formed p"
    and r: "MaybeUpdateRoundRobinConnectivityStateLocked rnd this st p = Inr p'"
  shows "well_formed p'"
proof -
  from r obtain l where l: "heap p this = Some l"
    by (auto simp add: MaybeUpdateRoundRobinConnectivityStateLocked_def split: option.splits)
  from MaybeUpdate_Inr [OF r l] obtain swap cs where
    sw: "swap_condition this l p = Inr swap"
    and p': "p' = (if swap then
             p\<lparr>subchannel_list := Some this, latest_pending_subchannel_list := None,
               heap := Orphan (subchannel_list p) (heap p)\<rparr>
           else p)\<lparr>calls := calls p @ cs\<rparr>"
    by blast
  show ?thesis
  proof (cases swap)
    case False
    with p' wf show ?thesis by (auto simp add: well_formed_def split: option.splits)
  next
    case True
    with swap_condition_Inr [OF sw] have pend: "latest_pending_subchannel_list p = Some this"
      by simp
    with wf have "this < next_ptr p" "subchannel_list p \<noteq> Some this"
      by (simp_all add: well_formed_def)
    with True p' l show ?thesis
      by (auto simp add: well_formed_def Orphan_def split: option.splits)
  qed
qed

lemma well_formed_heap_update:
  "well_formed p \<Longrightarrow> heap p this \<noteq> None \<Longrightarrow>
   well_formed (p\<lparr>heap := (heap p)(this \<mapsto> l'), calls := cs\<rparr>)"
  by (auto simp add: well_formed_def split: option.splits)

lemma well_formed_StartWatching:
  assumes "well_formed p" and "StartWatchingLocked chk rnd this st p = Inr p'"
  shows "well_formed p'"
proof -
  from assms(2) obtain l where l: "heap p this = Some l"
    by (auto simp add: StartWatchingLocked_def split: option.splits)
  from StartWatching_Inr [OF assms(2) l] obtain l' where
    mu: "MaybeUpdateRoundRobinConnectivityStateLocked rnd this st
       (p\<lparr>heap := (heap p)(this \<mapsto> l'),
          calls := calls p @ StartWatching_watch_loop (subchannel_data l')\<rparr>) = Inr p'"
    by blast
  from l have "heap p this \<noteq> None" by simp
  from well_formed_MaybeUpdate [OF well_formed_heap_update [OF assms(1) this] mu]
  show ?thesis .
qed

lemma well_formed_Process:
  assumes "well_formed p" and "ProcessConnectivityChangeLocked rnd this i raw p = Inr p'"
  shows "well_formed p'"
proof -
  from assms(2) obtain l where l: "heap p this = Some l"
    by (auto simp add: ProcessConnectivityChangeLocked_def split: option.splits)
  from Process_Inr [OF assms(2) l] obtain sc changed l' where
    res: "if changed then
        MaybeUpdateRoundRobinConnectivityStateLocked rnd this
          (UnavailableError ''connections to all backends failing'')
          (p\<lparr>calls := calls p @
                (if raw = GRPC_CHANNEL_TRANSIENT_FAILURE \<or> raw = GRPC_CHANNEL_IDLE
                 then [RequestReresolution, RequestConnection sc] else []),
             heap := (heap p)(this \<mapsto> l')\<rparr>) = Inr p'
      else
        p' = p\<lparr>calls := calls p @
                (if raw = GRPC_CHANNEL_TRANSIENT_FAILURE \<or> raw = GRPC_CHANNEL_IDLE
                 then [RequestReresolution, RequestConnection sc] else []),
             heap := (heap p)(this \<mapsto> l')\<rparr>"
    by blast
  have wf2: "well_formed (p\<lparr>calls := calls p @
                (if raw = GRPC_CHANNEL_TRANSIENT_FAILURE \<or> raw = GRPC_CHANNEL_IDLE
                 then [RequestReresolution, RequestConnection sc] else []),
             heap := (heap p)(this \<mapsto> l')\<rparr>)"
    using assms(1) l by (auto simp add: well_formed_def split: option.splits)
  show ?thesis
  proof (cases changed)
    case True
    with res well_formed_MaybeUpdate [OF wf2] show ?thesis by simp
  next
    case False
    with res wf2 show ?thesis by simp
  qed
qed

lemma well_formed_Update:
  assumes wf: "well_formed p" and r: "UpdateLocked create chk rnd args p = Inr p'"
  shows "well_formed p'"
proof (cases "subchannel_list p = None \<or> (\<exists>a. addresses args = StatusOr_value a)")
  case False
  then have "UpdateLocked create chk rnd args p = Inr p"
    by (cases "addresses args") (auto simp add: UpdateLocked_def)
  with r wf show ?thesis by simp
next
  case True
  let ?addrs = "case addresses args of StatusOr_value a \<Rightarrow> a | StatusOr_status s \<Rightarrow> []"
  let ?p1 = "p\<lparr>heap := Orphan (latest_pending_subchannel_list p)
                     ((heap p)(next_ptr p \<mapsto> RoundRobinSubchannelList_ctor create ?addrs)),
              latest_pending_subchannel_list := Some (next_ptr p),
              next_ptr := next_ptr p + 1\<rparr>"
  have "well_formed ?p1"
    using wf by (auto simp add: well_formed_def Orphan_def split: option.splits)
  from well_formed_StartWatching [OF this UpdateLocked_Inr [OF r True]]
  show ?thesis .
qed

section \<open>The logical state under repeated notifications\<close>

lemma Process_unchanged:
  assumes "heap p this = Some l" and "i < num_subchannels l"
    and "subchannel (subchannel_data l ! i) = Some sc"
    and "UpdateLogicalConnectivityStateLocked i raw l = Inr (False, l')"
  shows "ProcessConnectivityChangeLocked rnd this i raw p =
         Inr (p\<lparr>calls := calls p @
                (if raw = GRPC_CHANNEL_TRANSIENT_FAILURE \<or> raw = GRPC_CHANNEL_IDLE
                 then [RequestReresolution, RequestConnection sc] else [])\<rparr>)"
proof -
  from UpdateLogical_cases [OF assms(4)] have l': "l' = l" by simp
  have "(heap p)(this \<mapsto> l) = heap p"
    using assms(1) by (rule fun_upd_idem)
  then show ?thesis
    using assms l'
    by (simp add: ProcessConnectivityChangeLocked_def Let_def)
qed

lemma Process_changed:
  assumes "heap p this = Some l" and "i < num_subchannels l"
    and "subchannel (subchannel_data l ! i) = Some sc"
    and "UpdateLogicalConnectivityStateLocked i raw l = Inr (True, l')"
  shows "ProcessConnectivityChangeLocked rnd this i raw p =
         MaybeUpdateRoundRobinConnectivityStateLocked rnd this
           (UnavailableError ''connections to all backends failing'')
           (p\<lparr>calls := calls p @
                (if raw = GRPC_CHANNEL_TRANSIENT_FAILURE \<or> raw = GRPC_CHANNEL_IDLE
                 then [RequestReresolution, RequestConnection sc] else []),
              heap := (heap p)(this \<mapsto> l')\<rparr>)"
  using assms
  by (simp add: ProcessConnectivityChangeLocked_def Let_def)

lemma Process_twice:
  assumes wf: "well_formed p" and l: "heap p this = Some l"
    and r: "ProcessConnectivityChangeLocked rnd this i raw p = Inr p1"
  shows "\<exists>sc. subchannel (subchannel_data l ! i) = Some sc \<and>
     ProcessConnectivityChangeLocked rnd' this i raw p1 =
       Inr (p1\<lparr>calls := calls p1 @
              (if raw = GRPC_CHANNEL_TRANSIENT_FAILURE \<or> raw = GRPC_CHANNEL_IDLE
               then [RequestReresolution, RequestConnection sc] else [])\<rparr>)"
proof -
  let ?rq = "\<lambda>sc. if raw = GRPC_CHANNEL_TRANSIENT_FAILURE \<or> raw = GRPC_CHANNEL_IDLE
               then [RequestReresolution, RequestConnection sc] else []"
  from Process_Inr [OF r l] obtain sc changed l' where
    i: "i < num_subchannels l" and sc: "subchannel (subchannel_data l ! i) = Some sc"
    and u: "UpdateLogicalConnectivityStateLocked i raw l = Inr (changed, l')"
    and res: "if changed then
        MaybeUpdateRoundRobinConnectivityStateLocked rnd this
          (UnavailableError ''connections to all backends failing'')
          (p\<lparr>calls := calls p @ ?rq sc, heap := (heap p)(this \<mapsto> l')\<rparr>) = Inr p1
      else
        p1 = p\<lparr>calls := calls p @ ?rq sc, heap := (heap p)(this \<mapsto> l')\<rparr>"
    by blast
  let ?p2 = "p\<lparr>calls := calls p @ ?rq sc, heap := (heap p)(this \<mapsto> l')\<rparr>"
  have h1: "heap p1 this = Some l'"
  proof (cases changed)
    case False
    with res show ?thesis by simp
  next
    case True
    with res have mu: "MaybeUpdateRoundRobinConnectivityStateLocked rnd this
          (UnavailableError ''connections to all backends failing'') ?p2 = Inr p1"
      by simp
    have h2: "heap ?p2 this = Some l'" by simp
    from MaybeUpdate_Inr [OF mu h2] obtain swap cs where
      sw: "swap_condition this l' ?p2 = Inr swap"
      and p1: "p1 = (if swap then
             ?p2\<lparr>subchannel_list := Some this, latest_pending_subchannel_list := None,
               heap := Orphan (subchannel_list ?p2) (heap ?p2)\<rparr>
           else ?p2)\<lparr>calls := calls ?p2 @ cs\<rparr>"
      by blast
    show ?thesis
    proof (cases swap)
      case False
      with p1 show ?thesis by simp
    next
      case True
      with swap_condition_Inr [OF sw] have "latest_pending_subchannel_list p = Some this"
        by simp
      with wf have "subchannel_list p \<noteq> Some this"
        by (simp add: well_formed_def)
      with True p1 show ?thesis
        by (cases "subchannel_list p") (simp_all add: Orphan_def)
    qed
  qed
  have hs: "map subchannel (subchannel_data l') = map subchannel (subchannel_data l)"
    using UpdateLogical_handles [OF u] .
  then have len: "length (subchannel_data l') = length (subchannel_data l)"
    by (rule map_eq_imp_length_eq)
  have i': "i < num_subchannels l'"
    using i len by (simp add: num_subchannels_def)
  have "map subchannel (subchannel_data l') ! i = map subchannel (subchannel_data l) ! i"
    using hs by simp
  then have sc': "subchannel (subchannel_data l' ! i) = Some sc"
    using i i' sc by (simp add: num_subchannels_def)
  from UpdateLogical_twice [OF u]
  have "UpdateLogicalConnectivityStateLocked i raw l' = Inr (False, l')" .
  from Process_unchanged [OF h1 i' sc' this] sc show ?thesis by blast
qed

text \<open>
  Claim C4, as amended. For an entry of a consistent list and a raw state:
  if the logical state is TRANSIENT_FAILURE and the raw state is not READY, nothing changes
  and the result is false; a raw IDLE counts as CONNECTING; if the resulting state is the
  logical state, nothing changes and the result is false; otherwise, if the raw state is
  SHUTDOWN the assertion of the counter update fails and the call aborts, and for every
  other raw state the counter of the old state is decremented (IDLE has none), the counter
  of the new state is incremented, the entry takes the new state and the result is true.
  Whenever a call returns, the same raw state delivered again returns false and changes
  nothing. A notification whose update returns false changes no list and no pointer and
  makes no state report (it only makes the re-resolution and connection requests of a
  TRANSIENT_FAILURE or IDLE); one whose update returns true runs the promotion and
  aggregation on the updated list. Hence, on a well-formed policy, when a notification has
  returned, the same raw state delivered again to the same entry updates no counter and
  triggers no re-aggregation: counters are updated and re-aggregation is triggered only on
  the first delivery.
\<close>

theorem UpdateLogicalConnectivityStateLocked_behaviour:
  assumes "counters_consistent l" and "i < num_subchannels l"
  shows
    "(let old = logical_connectivity_state (subchannel_data l ! i);
          new = (if raw = GRPC_CHANNEL_IDLE then GRPC_CHANNEL_CONNECTING else raw)
      in
      if old = GRPC_CHANNEL_TRANSIENT_FAILURE \<and> raw \<noteq> GRPC_CHANNEL_READY then
        UpdateLogicalConnectivityStateLocked i raw l = Inr (False, l)
      else if new = old then
        UpdateLogicalConnectivityStateLocked i raw l = Inr (False, l)
      else if raw = GRPC_CHANNEL_SHUTDOWN then
        UpdateLogicalConnectivityStateLocked i raw l = Inl AssertionFailed
      else
        UpdateLogicalConnectivityStateLocked i raw l =
          Inr (True,
               l\<lparr>subchannel_data :=
                    (subchannel_data l)
                      [i := (subchannel_data l ! i)\<lparr>logical_connectivity_state := new\<rparr>],
                 num_ready :=
                   (if old = GRPC_CHANNEL_READY then num_ready l - 1
                    else if new = GRPC_CHANNEL_READY then num_ready l + 1 else num_ready l),
                 num_connecting :=
                   (if old = GRPC_CHANNEL_CONNECTING then num_connecting l - 1
                    else if new = GRPC_CHANNEL_CONNECTING then num_connecting l + 1
                    else num_connecting l),
                 num_transient_failure :=
                   (if old = GRPC_CHANNEL_TRANSIENT_FAILURE then num_transient_failure l - 1
                    else if new = GRPC_CHANNEL_TRANSIENT_FAILURE then num_transient_failure l + 1
                    else num_transient_failure l)\<rparr>)) \<and>
     (\<forall>b l'. UpdateLogicalConnectivityStateLocked i raw l = Inr (b, l') \<longrightarrow>
        UpdateLogicalConnectivityStateLocked i raw l' = Inr (False, l')) \<and>
     (heap p this = Some l \<and> subchannel (subchannel_data l ! i) = Some sc \<longrightarrow>
        (\<forall>l'. UpdateLogicalConnectivityStateLocked i raw l = Inr (False, l') \<longrightarrow>
           ProcessConnectivityChangeLocked rnd this i raw p =
             Inr (p\<lparr>calls := calls p @
                    (if raw = GRPC_CHANNEL_TRANSIENT_FAILURE \<or> raw = GRPC_CHANNEL_IDLE
                     then [RequestReresolution, RequestConnection sc] else [])\<rparr>)) \<and>
        (\<forall>l'. UpdateLogicalConnectivityStateLocked i raw l = Inr (True, l') \<longrightarrow>
           ProcessConnectivityChangeLocked rnd this i raw p =
             MaybeUpdateRoundRobinConnectivityStateLocked rnd this
               (UnavailableError ''connections to all backends failing'')
               (p\<lparr>calls := calls p @
                    (if raw = GRPC_CHANNEL_TRANSIENT_FAILURE \<or> raw = GRPC_CHANNEL_IDLE
                     then [RequestReresolution, RequestConnection sc] else []),
                  heap := (heap p)(this \<mapsto> l')\<rparr>))) \<and>
     (well_formed p \<and> heap p this = Some l \<and>
      ProcessConnectivityChangeLocked rnd this i raw p = Inr p1 \<longrightarrow>
        (\<exists>sc'. subchannel (subchannel_data l ! i) = Some sc' \<and>
           (\<forall>rnd'. ProcessConnectivityChangeLocked rnd' this i raw p1 =
              Inr (p1\<lparr>calls := calls p1 @
                     (if raw = GRPC_CHANNEL_TRANSIENT_FAILURE \<or> raw = GRPC_CHANNEL_IDLE
                      then [RequestReresolution, RequestConnection sc'] else [])\<rparr>))))"
proof -
  note entry = UpdateLogical_entry_behaviour [OF assms, of raw]
  have unchanged: "ProcessConnectivityChangeLocked rnd this i raw p =
             Inr (p\<lparr>calls := calls p @
                    (if raw = GRPC_CHANNEL_TRANSIENT_FAILURE \<or> raw = GRPC_CHANNEL_IDLE
                     then [RequestReresolution, RequestConnection sc] else [])\<rparr>)"
    if "heap p this = Some l" "subchannel (subchannel_data l ! i) = Some sc"
      "UpdateLogicalConnectivityStateLocked i raw l = Inr (False, l')" for l'
    using Process_unchanged [OF that(1) assms(2) that(2) that(3)] .
  have changed: "ProcessConnectivityChangeLocked rnd this i raw p =
             MaybeUpdateRoundRobinConnectivityStateLocked rnd this
               (UnavailableError ''connections to all backends failing'')
               (p\<lparr>calls := calls p @
                    (if raw = GRPC_CHANNEL_TRANSIENT_FAILURE \<or> raw = GRPC_CHANNEL_IDLE
                     then [RequestReresolution, RequestConnection sc] else []),
                  heap := (heap p)(this \<mapsto> l')\<rparr>)"
    if "heap p this = Some l" "subchannel (subchannel_data l ! i) = Some sc"
      "UpdateLogicalConnectivityStateLocked i raw l = Inr (True, l')" for l'
    using Process_changed [OF that(1) assms(2) that(2) that(3)] .
  have twice: "\<exists>sc'. subchannel (subchannel_data l ! i) = Some sc' \<and>
           (\<forall>rnd'. ProcessConnectivityChangeLocked rnd' this i raw p1 =
              Inr (p1\<lparr>calls := calls p1 @
                     (if raw = GRPC_CHANNEL_TRANSIENT_FAILURE \<or> raw = GRPC_CHANNEL_IDLE
                      then [RequestReresolution, RequestConnection sc'] else [])\<rparr>))"
    if wf: "well_formed p" and l: "heap p this = Some l"
      and r: "ProcessConnectivityChangeLocked rnd this i raw p = Inr p1"
  proof -
    from Process_twice [OF wf l r, of rnd] obtain sc' where
      s: "subchannel (subchannel_data l ! i) = Some sc'" by blast
    have "ProcessConnectivityChangeLocked rnd' this i raw p1 =
              Inr (p1\<lparr>calls := calls p1 @
                     (if raw = GRPC_CHANNEL_TRANSIENT_FAILURE \<or> raw = GRPC_CHANNEL_IDLE
                      then [RequestReresolution, RequestConnection sc'] else [])\<rparr>)" for rnd'
      using Process_twice [OF wf l r, of rnd'] s by auto
    with s show ?thesis by blast
  qed
  from entry unchanged changed twice show ?thesis
    by (intro conjI impI allI) blast+
qed

theorem UpdateLogicalConnectivityStateLocked_behaviour_witness:
  "counters_consistent
     \<lparr>subchannel_data =
        [\<lparr>subchannel = Some 7, logical_connectivity_state = GRPC_CHANNEL_CONNECTING\<rparr>,
         \<lparr>subchannel = Some 8, logical_connectivity_state = GRPC_CHANNEL_TRANSIENT_FAILURE\<rparr>],
      num_ready = 0, num_connecting = 1, num_transient_failure = 1\<rparr> \<and>
   UpdateLogicalConnectivityStateLocked 0 GRPC_CHANNEL_READY
     \<lparr>subchannel_data =
        [\<lparr>subchannel = Some 7, logical_connectivity_state = GRPC_CHANNEL_CONNECTING\<rparr>,
         \<lparr>subchannel = Some 8, logical_connectivity_state = GRPC_CHANNEL_TRANSIENT_FAILURE\<rparr>],
      num_ready = 0, num_connecting = 1, num_transient_failure = 1\<rparr> =
   Inr (True,
     \<lparr>subchannel_data =
        [\<lparr>subchannel = Some 7, logical_connectivity_state = GRPC_CHANNEL_READY\<rparr>,
         \<lparr>subchannel = Some 8, logical_connectivity_state = GRPC_CHANNEL_TRANSIENT_FAILURE\<rparr>],
      num_ready = 1, num_connecting = 0, num_transient_failure = 1\<rparr>) \<and>
   well_formed example_policy \<and>
   ProcessConnectivityChangeLocked 9 3 0 GRPC_CHANNEL_TRANSIENT_FAILURE
     \<lparr>subchannel_list = Some 3, latest_pending_subchannel_list = Some 4, shutdown = False,
      heap = [3 \<mapsto> \<lparr>subchannel_data =
                       [\<lparr>subchannel = Some 7,
                         logical_connectivity_state = GRPC_CHANNEL_TRANSIENT_FAILURE\<rparr>],
                     num_ready = 0, num_connecting = 0, num_transient_failure = 1\<rparr>,
              4 \<mapsto> example_pending],
      next_ptr = 5,
      calls = [RequestReresolution, RequestConnection 7,
               UpdateState GRPC_CHANNEL_TRANSIENT_FAILURE
                 (UnavailableError ''connections to all backends failing'')
                 (TransientFailurePicker
                    (UnavailableError ''connections to all backends failing''))]\<rparr> =
   Inr \<lparr>subchannel_list = Some 3, latest_pending_subchannel_list = Some 4, shutdown = False,
      heap = [3 \<mapsto> \<lparr>subchannel_data =
                       [\<lparr>subchannel = Some 7,
                         logical_connectivity_state = GRPC_CHANNEL_TRANSIENT_FAILURE\<rparr>],
                     num_ready = 0, num_connecting = 0, num_transient_failure = 1\<rparr>,
              4 \<mapsto> example_pending],
      next_ptr = 5,
      calls = [RequestReresolution, RequestConnection 7,
               UpdateState GRPC_CHANNEL_TRANSIENT_FAILURE
                 (UnavailableError ''connections to all backends failing'')
                 (TransientFailurePicker
                    (UnavailableError ''connections to all backends failing'')),
               RequestReresolution, RequestConnection 7]\<rparr>"
proof -
  let ?l = "\<lparr>subchannel_data =
        [\<lparr>subchannel = Some 7, logical_connectivity_state = GRPC_CHANNEL_CONNECTING\<rparr>,
         \<lparr>subchannel = Some 8, logical_connectivity_state = GRPC_CHANNEL_TRANSIENT_FAILURE\<rparr>],
      num_ready = 0, num_connecting = 1, num_transient_failure = 1\<rparr>"
  have c: "counters_consistent ?l"
    by (simp add: counters_consistent_def count_state_def num_subchannels_def SIZE_MAX_def)
  have i: "0 < num_subchannels ?l"
    by (simp add: num_subchannels_def)
  from UpdateLogicalConnectivityStateLocked_behaviour [OF c i, of GRPC_CHANNEL_READY, THEN conjunct1]
  have one: "UpdateLogicalConnectivityStateLocked 0 GRPC_CHANNEL_READY ?l =
   Inr (True,
     \<lparr>subchannel_data =
        [\<lparr>subchannel = Some 7, logical_connectivity_state = GRPC_CHANNEL_READY\<rparr>,
         \<lparr>subchannel = Some 8, logical_connectivity_state = GRPC_CHANNEL_TRANSIENT_FAILURE\<rparr>],
      num_ready = 1, num_connecting = 0, num_transient_failure = 1\<rparr>)"
    by (simp add: Let_def)
  have ca: "counters_consistent example_active"
    by (simp add: counters_consistent_def count_state_def num_subchannels_def SIZE_MAX_def
          example_active_def)
  have ia: "0 < num_subchannels example_active"
    by (simp add: num_subchannels_def example_active_def)
  have wf: "well_formed example_policy"
    by (simp add: well_formed_def example_policy_def)
  have h: "heap example_policy 3 = Some example_active"
    by (simp add: example_policy_def)
  have s: "subchannel (subchannel_data example_active ! 0) = Some 7"
    by (simp add: example_active_def)
  from UpdateLogicalConnectivityStateLocked_behaviour [OF ca ia,
      THEN conjunct2, THEN conjunct2, THEN conjunct2, rule_format,
      OF conjI [OF wf conjI [OF h example_notification]]] s
  have "\<forall>rnd'. ProcessConnectivityChangeLocked rnd' 3 0 GRPC_CHANNEL_TRANSIENT_FAILURE
     \<lparr>subchannel_list = Some 3, latest_pending_subchannel_list = Some 4, shutdown = False,
      heap = [3 \<mapsto> \<lparr>subchannel_data =
                       [\<lparr>subchannel = Some 7,
                         logical_connectivity_state = GRPC_CHANNEL_TRANSIENT_FAILURE\<rparr>],
                     num_ready = 0, num_connecting = 0, num_transient_failure = 1\<rparr>,
              4 \<mapsto> example_pending],
      next_ptr = 5,
      calls = [RequestReresolution, RequestConnection 7,
               UpdateState GRPC_CHANNEL_TRANSIENT_FAILURE
                 (UnavailableError ''connections to all backends failing'')
                 (TransientFailurePicker
                    (UnavailableError ''connections to all backends failing''))]\<rparr> =
   Inr \<lparr>subchannel_list = Some 3, latest_pending_subchannel_list = Some 4, shutdown = False,
      heap = [3 \<mapsto> \<lparr>subchannel_data =
                       [\<lparr>subchannel = Some 7,
                         logical_connectivity_state = GRPC_CHANNEL_TRANSIENT_FAILURE\<rparr>],
                     num_ready = 0, num_connecting = 0, num_transient_failure = 1\<rparr>,
              4 \<mapsto> example_pending],
      next_ptr = 5,
      calls = [RequestReresolution, RequestConnection 7,
               UpdateState GRPC_CHANNEL_TRANSIENT_FAILURE
                 (UnavailableError ''connections to all backends failing'')
                 (TransientFailurePicker
                    (UnavailableError ''connections to all backends failing'')),
               RequestReresolution, RequestConnection 7]\<rparr>"
    by auto
  with c one wf show ?thesis by blast
qed

text \<open>
  Claim C4 as stated fails for the raw state SHUTDOWN: on an entry in CONNECTING the call
  neither changes the state and returns true nor returns false; the assertion
  \<^verbatim>\<open>GPR_ASSERT(new_state != GRPC_CHANNEL_SHUTDOWN)\<close> fails.
\<close>

theorem UpdateLogicalConnectivityStateLocked_SHUTDOWN_counterexample:
  "UpdateLogicalConnectivityStateLocked 0 GRPC_CHANNEL_SHUTDOWN
     \<lparr>subchannel_data =
        [\<lparr>subchannel = Some 7, logical_connectivity_state = GRPC_CHANNEL_CONNECTING\<rparr>],
      num_ready = 0, num_connecting = 1, num_transient_failure = 0\<rparr> = Inl AssertionFailed"
  by (simp add: UpdateLogicalConnectivityStateLocked_def UpdateStateCountersLocked_def
        num_subchannels_def)

end
